theory Spec2Isabelle
  imports Main "HOL-Library.Word"
begin

unbundle bit_operations_syntax

section \<open>WS281x over SPI: the chip profile and the encoders\<close>

type_synonym u8 = "8 word"
type_synonym u32 = "32 word"

text \<open>
  \<^verbatim>\<open>struct ws281x_chipinfo\<close>: the per-chip constants. All three sizes are \<^verbatim>\<open>u8\<close> in
  the driver.
\<close>

record ws281x_chipinfo =
  zero_val :: u8
  one_val :: u8
  write_freq :: u32
  subpixel_sz :: u8
  ch_per_led :: u8
  pixel_sz :: u8

text \<open>
  \<^verbatim>\<open>ws2812b_info\<close>, the only profile of the match table. \<^verbatim>\<open>BITS_PER_BYTE\<close> is a
  macro of the kernel headers, with the value 8.
\<close>

definition BITS_PER_BYTE :: u8 where
  "BITS_PER_BYTE = 8"

definition ws2812b_info :: ws281x_chipinfo where
  "ws2812b_info =
     \<lparr>zero_val = 0xc0, one_val = 0xfc, write_freq = 6400000,
      subpixel_sz = BITS_PER_BYTE, ch_per_led = 3, pixel_sz = BITS_PER_BYTE * 3\<rparr>"

text \<open>
  The buffers of the driver are byte lists, and a pointer into a buffer is the buffer
  together with an offset. A store through a pointer that lies outside the buffer is
  undefined in C; the model makes it the result \<open>None\<close>.

  \<^verbatim>\<open>ws281x_format_subpixel\<close>: the loop \<^verbatim>\<open>for (i = 0; i < subpixel_sz; i++)\<close> stores the
  symbol of the top bit of \<^verbatim>\<open>pixel\<close> at \<^verbatim>\<open>subpixel_buf[i]\<close> and shifts the
  \<^verbatim>\<open>unsigned char\<close> left by one (the shift drops the top bit). The counter stays
  below 256, so it is a \<open>nat\<close>.
\<close>

function ws281x_format_subpixel_loop ::
  "ws281x_chipinfo \<Rightarrow> u8 list \<Rightarrow> nat \<Rightarrow> nat \<Rightarrow> u8 \<Rightarrow> u8 list option" where
  "ws281x_format_subpixel_loop ci buf off i pixel =
     (if i < unat (subpixel_sz ci) then
        (if off + i < length buf then
           ws281x_format_subpixel_loop ci
             (buf[off + i := (if pixel AND 0x80 \<noteq> 0 then one_val ci else zero_val ci)])
             off (Suc i) (push_bit 1 pixel)
         else None)
      else Some buf)"
  by pat_completeness auto
termination
  by (relation "measure (\<lambda>(ci, buf, off, i, pixel). unat (subpixel_sz ci) - i)") auto

declare ws281x_format_subpixel_loop.simps [simp del]

definition ws281x_format_subpixel ::
  "ws281x_chipinfo \<Rightarrow> u8 list \<Rightarrow> nat \<Rightarrow> u8 \<Rightarrow> u8 list option" where
  "ws281x_format_subpixel ci buf off pixel = ws281x_format_subpixel_loop ci buf off 0 pixel"

text \<open>
  \<^verbatim>\<open>ws2812_format_pixel_grb\<close>: three subpixels, the pointer advanced by
  \<^verbatim>\<open>subpixel_sz\<close> after the first and after the second. The parameters are in the
  order of the C prototype: \<^verbatim>\<open>g\<close>, \<^verbatim>\<open>r\<close>, \<^verbatim>\<open>b\<close>.
\<close>

definition ws2812_format_pixel_grb ::
  "ws281x_chipinfo \<Rightarrow> u8 list \<Rightarrow> nat \<Rightarrow> u8 \<Rightarrow> u8 \<Rightarrow> u8 \<Rightarrow> u8 list option" where
  "ws2812_format_pixel_grb ci buf off g r b =
     (case ws281x_format_subpixel ci buf off g of
        None \<Rightarrow> None
      | Some buf1 \<Rightarrow>
          (case ws281x_format_subpixel ci buf1 (off + unat (subpixel_sz ci)) r of
             None \<Rightarrow> None
           | Some buf2 \<Rightarrow>
               ws281x_format_subpixel ci buf2
                 (off + unat (subpixel_sz ci) + unat (subpixel_sz ci)) b))"

subsection \<open>What the encoders are compared with\<close>

text \<open>
  The symbol of one bit, and the symbols of the top \<open>n\<close> bits of a byte, most significant
  bit first.
\<close>

definition symbol_of :: "ws281x_chipinfo \<Rightarrow> bool \<Rightarrow> u8" where
  "symbol_of ci b = (if b then one_val ci else zero_val ci)"

primrec subpixel_symbols :: "ws281x_chipinfo \<Rightarrow> nat \<Rightarrow> u8 \<Rightarrow> u8 list" where
  "subpixel_symbols ci 0 pixel = []"
| "subpixel_symbols ci (Suc n) pixel =
     symbol_of ci (bit pixel 7) # subpixel_symbols ci n (push_bit 1 pixel)"

text \<open>
  The decoder of the round-trip property, in the spec's words: each position is mapped
  to a bit, \<^verbatim>\<open>oneSymbol\<close> to 1 and \<^verbatim>\<open>zeroSymbol\<close> to 0, and the bits are read most
  significant first.
\<close>

definition decode_symbol :: "ws281x_chipinfo \<Rightarrow> u8 \<Rightarrow> u8" where
  "decode_symbol ci s = (if s = one_val ci then 1 else 0)"

definition decode_subpixel :: "ws281x_chipinfo \<Rightarrow> u8 list \<Rightarrow> u8" where
  "decode_subpixel ci syms = foldl (\<lambda>acc s. push_bit 1 acc OR decode_symbol ci s) 0 syms"

section \<open>The chain: per-LED state, frame buffer, transport\<close>

text \<open>
  Modelled from the spec: the per-LED, per-channel state that the LED brightness API
  collaborator keeps for a registered multicolor LED (channel identifier, brightness,
  brightness range). The types are \<^verbatim>\<open>struct mc_subled\<close>, \<^verbatim>\<open>struct led_classdev\<close> and
  \<^verbatim>\<open>struct led_classdev_mc\<close> of the kernel's LED headers, which are not part of this
  repository; the fields below are the ones the driver touches, each an
  \<^verbatim>\<open>unsigned int\<close>. The callback pointer \<^verbatim>\<open>brightness_set_blocking\<close> is a flag: set once
  the driver has installed its function. A \<^verbatim>\<open>NULL\<close> \<^verbatim>\<open>subled_info\<close> is the empty list:
  every access to it is out of range.
\<close>

record mc_subled =
  color_index :: u32
  brightness :: u32
  intensity :: u32
  channel :: u32

record led_classdev =
  cdev_brightness :: u32
  max_brightness :: u32
  brightness_set_blocking :: bool

record led_classdev_mc =
  led_cdev :: led_classdev
  num_colors :: u32
  subled_info :: "mc_subled list"

text \<open>
  \<^verbatim>\<open>struct ws281x_led\<close>. The \<^verbatim>\<open>parent\<close> pointer is the chain that holds the LED.
\<close>

record ws281x_led =
  led :: led_classdev_mc

text \<open>
  Modelled from the spec: the bus transport collaborator, which accepts a buffer and a
  length under a configured clock frequency, mode and word size (\<^verbatim>\<open>struct spi_device\<close>
  and \<^verbatim>\<open>struct spi_transfer\<close> of the kernel's SPI header, not part of this repository).
  The device holds the three settings the probe writes, and the transfers that were
  handed to \<^verbatim>\<open>spi_sync\<close> through it, oldest first. A transfer is the transmit buffer
  (its contents at the time of the call) and the length field \<^verbatim>\<open>len\<close>, an
  \<^verbatim>\<open>unsigned int\<close>.
\<close>

record spi_transfer =
  tx_buf :: "u8 list"
  len :: u32

record spi_device =
  mode :: u32
  bits_per_word :: u8
  max_speed_hz :: u32
  transfers :: "spi_transfer list"

text \<open>
  \<^verbatim>\<open>struct ws281x_array\<close>. \<^verbatim>\<open>mutex\<close> is \<open>True\<close> while the mutex is held. \<^verbatim>\<open>dev\<close> is
  used for log messages only and is left out.
\<close>

record ws281x_array =
  mutex :: bool
  info :: ws281x_chipinfo
  pixelstream :: "u8 list"
  num_leds :: u32
  leds :: "ws281x_led list"
  spi :: spi_device

text \<open>An array read; out of range is \<open>None\<close>.\<close>

definition nth_opt :: "'a list \<Rightarrow> nat \<Rightarrow> 'a option" where
  "nth_opt xs i = (if i < length xs then Some (xs ! i) else None)"

text \<open>
  \<^verbatim>\<open>ws281x_update_pixelstream\<close>: for every LED index below \<^verbatim>\<open>num_leds\<close>, one pixel
  is formatted at the running pointer, which then advances by \<^verbatim>\<open>pixel_sz\<close>. The
  arguments are, in the order of the call, the brightness of sub-LED 1, of sub-LED 0 and
  of sub-LED 2; each \<^verbatim>\<open>unsigned int\<close> is converted to the \<^verbatim>\<open>unsigned char\<close>
  parameter, which keeps its low eight bits.
\<close>

function ws281x_update_pixelstream_loop ::
  "ws281x_array \<Rightarrow> nat \<Rightarrow> nat \<Rightarrow> ws281x_array option" where
  "ws281x_update_pixelstream_loop ws off i =
     (if i < unat (num_leds ws) then
        (case nth_opt (leds ws) i of
           None \<Rightarrow> None
         | Some l \<Rightarrow>
             (case nth_opt (subled_info (led l)) 1 of
                None \<Rightarrow> None
              | Some s1 \<Rightarrow>
                  (case nth_opt (subled_info (led l)) 0 of
                     None \<Rightarrow> None
                   | Some s0 \<Rightarrow>
                       (case nth_opt (subled_info (led l)) 2 of
                          None \<Rightarrow> None
                        | Some s2 \<Rightarrow>
                            (case ws2812_format_pixel_grb (info ws) (pixelstream ws) off
                                    (ucast (brightness s1)) (ucast (brightness s0))
                                    (ucast (brightness s2)) of
                               None \<Rightarrow> None
                             | Some buf \<Rightarrow>
                                 ws281x_update_pixelstream_loop (ws\<lparr>pixelstream := buf\<rparr>)
                                   (off + unat (pixel_sz (info ws))) (Suc i))))))
      else Some ws)"
  by pat_completeness auto
termination
  by (relation "measure (\<lambda>(ws, off, i). unat (num_leds ws) - i)") auto

declare ws281x_update_pixelstream_loop.simps [simp del]

definition ws281x_update_pixelstream :: "ws281x_array \<Rightarrow> ws281x_array option" where
  "ws281x_update_pixelstream ws = ws281x_update_pixelstream_loop ws 0 0"

text \<open>
  \<^verbatim>\<open>ws281x_write\<close>: one transfer, of the frame buffer and the length
  \<^verbatim>\<open>pixel_sz * num_leds\<close> (an \<^verbatim>\<open>unsigned int\<close> product, which wraps at \<open>2^32\<close>),
  handed to \<^verbatim>\<open>spi_sync\<close>. The transport is the parameter \<open>spi_sync\<close>, which gives the
  status of a transfer; a nonzero status is logged and returned, otherwise 0.
\<close>

definition ws281x_write :: "(spi_transfer \<Rightarrow> int) \<Rightarrow> ws281x_array \<Rightarrow> int \<times> ws281x_array" where
  "ws281x_write spi_sync ws =
     (let xfers = \<lparr>tx_buf = pixelstream ws, len = ucast (pixel_sz (info ws)) * num_leds ws\<rparr>;
          ws' = ws\<lparr>spi := (spi ws)\<lparr>transfers := transfers (spi ws) @ [xfers]\<rparr>\<rparr>;
          ret = spi_sync xfers
      in if ret \<noteq> 0 then (ret, ws') else (0, ws'))"

text \<open>
  Modelled from the spec: the LED brightness API collaborator, which "resolves
  per-channel component values" from the brightness scalar. It is the kernel's
  \<^verbatim>\<open>led_mc_calc_color_components\<close>, which is not part of this repository: each of the
  first \<^verbatim>\<open>num_colors\<close> sub-LEDs gets \<^verbatim>\<open>brightness * intensity / max_brightness\<close>, in
  \<^verbatim>\<open>unsigned int\<close> arithmetic. A division by zero or an access beyond the array is
  \<open>None\<close>.
\<close>

definition led_mc_calc_color_components :: "led_classdev_mc \<Rightarrow> u32 \<Rightarrow> led_classdev_mc option" where
  "led_mc_calc_color_components mc b =
     (let n = unat (num_colors mc) in
      if length (subled_info mc) < n then None
      else if 0 < n \<and> max_brightness (led_cdev mc) = 0 then None
      else Some (mc\<lparr>subled_info :=
             map (\<lambda>s. s\<lparr>brightness := b * intensity s div max_brightness (led_cdev mc)\<rparr>)
               (take n (subled_info mc))
             @ drop n (subled_info mc)\<rparr>))"

text \<open>
  Modelled from the spec: \<^verbatim>\<open>writeLock\<close>, a mutual-exclusion guard (the kernel's
  \<^verbatim>\<open>mutex_lock\<close> and \<^verbatim>\<open>mutex_unlock\<close>, not part of this repository), in a run of one
  caller: taking a mutex that is held does not return (\<open>None\<close>); releasing it clears
  the flag.
\<close>

definition mutex_lock :: "ws281x_array \<Rightarrow> ws281x_array option" where
  "mutex_lock ws = (if mutex ws then None else Some (ws\<lparr>mutex := True\<rparr>))"

definition mutex_unlock :: "ws281x_array \<Rightarrow> ws281x_array" where
  "mutex_unlock ws = ws\<lparr>mutex := False\<rparr>"

text \<open>
  \<^verbatim>\<open>ws281x_brightness_set_blocking\<close> for the LED at index \<open>k\<close> of the chain (the
  \<^verbatim>\<open>container_of\<close> of the class device). The statements run in the order of the
  source; the function below returns the state before the call and the state after each
  of the five statements, together with the value returned.
\<close>

definition ws281x_brightness_set_blocking_trace ::
  "(spi_transfer \<Rightarrow> int) \<Rightarrow> nat \<Rightarrow> u32 \<Rightarrow> ws281x_array \<Rightarrow> (ws281x_array list \<times> int) option" where
  "ws281x_brightness_set_blocking_trace spi_sync k b ws =
     (case nth_opt (leds ws) k of
        None \<Rightarrow> None
      | Some l \<Rightarrow>
          (case led_mc_calc_color_components (led l) b of
             None \<Rightarrow> None
           | Some mc \<Rightarrow>
               (let st1 = ws\<lparr>leds := (leds ws)[k := l\<lparr>led := mc\<rparr>]\<rparr> in
                case mutex_lock st1 of
                  None \<Rightarrow> None
                | Some st2 \<Rightarrow>
                    (case ws281x_update_pixelstream st2 of
                       None \<Rightarrow> None
                     | Some st3 \<Rightarrow>
                         (let (ret, st4) = ws281x_write spi_sync st3;
                              st5 = mutex_unlock st4
                          in Some ([ws, st1, st2, st3, st4, st5], ret))))))"

definition ws281x_brightness_set_blocking ::
  "(spi_transfer \<Rightarrow> int) \<Rightarrow> nat \<Rightarrow> u32 \<Rightarrow> ws281x_array \<Rightarrow> (int \<times> ws281x_array) option" where
  "ws281x_brightness_set_blocking spi_sync k b ws =
     map_option (\<lambda>(tr, ret). (ret, last tr)) (ws281x_brightness_set_blocking_trace spi_sync k b ws)"

subsection \<open>What the frame is compared with\<close>

text \<open>
  The symbols of one LED, in the order of transmission: sub-LED 1, sub-LED 0, sub-LED 2;
  the frame of a list of LEDs; and the shape of a chain on which no access of the rebuild
  leaves its array: as many LEDs as \<^verbatim>\<open>num_leds\<close>, three sub-LEDs or more for each,
  a pixel of three subpixels, a frame buffer of \<^verbatim>\<open>num_leds\<close> pixels.
\<close>

definition pixel_symbols :: "ws281x_chipinfo \<Rightarrow> ws281x_led \<Rightarrow> u8 list" where
  "pixel_symbols ci l =
     subpixel_symbols ci (unat (subpixel_sz ci)) (ucast (brightness (subled_info (led l) ! 1)))
     @ subpixel_symbols ci (unat (subpixel_sz ci)) (ucast (brightness (subled_info (led l) ! 0)))
     @ subpixel_symbols ci (unat (subpixel_sz ci)) (ucast (brightness (subled_info (led l) ! 2)))"

definition frame_of :: "ws281x_chipinfo \<Rightarrow> ws281x_led list \<Rightarrow> u8 list" where
  "frame_of ci ls = concat (map (pixel_symbols ci) ls)"

definition chain_wf :: "ws281x_array \<Rightarrow> bool" where
  "chain_wf ws \<longleftrightarrow>
     length (leds ws) = unat (num_leds ws)
     \<and> list_all (\<lambda>l. 3 \<le> length (subled_info (led l))) (leds ws)
     \<and> unat (pixel_sz (info ws)) = 3 * unat (subpixel_sz (info ws))
     \<and> length (pixelstream ws) = unat (num_leds ws) * unat (pixel_sz (info ws))"

text \<open>
  The chain of the end-to-end example: two LEDs under \<^verbatim>\<open>ws2812b_info\<close>, sub-LED
  brightness (red, green, blue) = (0, 0, 0) for LED 0 and (255, 0, 0) for LED 1 (the
  intensities are the same values, which is the state after a brightness of 255), and a
  zeroed frame buffer of 48 bytes. \<open>example_frame\<close> is the frame the spec expects for it.
\<close>

definition example_led :: "u32 \<Rightarrow> u32 \<Rightarrow> u32 \<Rightarrow> ws281x_led" where
  "example_led r g b =
     \<lparr>led = \<lparr>led_cdev = \<lparr>cdev_brightness = 0, max_brightness = 255, brightness_set_blocking = True\<rparr>,
             num_colors = 3,
             subled_info =
               [\<lparr>color_index = 1, brightness = r, intensity = r, channel = 0\<rparr>,
                \<lparr>color_index = 2, brightness = g, intensity = g, channel = 0\<rparr>,
                \<lparr>color_index = 3, brightness = b, intensity = b, channel = 0\<rparr>]\<rparr>\<rparr>"

definition example_chain :: ws281x_array where
  "example_chain =
     \<lparr>mutex = False, info = ws2812b_info, pixelstream = replicate 48 0, num_leds = 2,
      leds = [example_led 0 0 0, example_led 255 0 0],
      spi = \<lparr>mode = 0, bits_per_word = 8, max_speed_hz = 6400000, transfers = []\<rparr>\<rparr>"

definition example_frame :: "u8 list" where
  "example_frame = replicate 24 0xC0 @ replicate 8 0xC0 @ replicate 8 0xFC @ replicate 8 0xC0"

section \<open>Lock discipline of one update\<close>

text \<open>
  The steps of a run are the pairs of neighbouring states. The first predicate is the
  spec's discipline: a step that changes the channel state (\<^verbatim>\<open>leds\<close>) or the frame buffer
  has the mutex held before and after it. The second is the discipline for the frame
  buffer and the transport alone.
\<close>

fun steps :: "'a list \<Rightarrow> ('a \<times> 'a) list" where
  "steps (x # y # zs) = (x, y) # steps (y # zs)"
| "steps _ = []"

definition state_and_frame_under_lock :: "ws281x_array list \<Rightarrow> bool" where
  "state_and_frame_under_lock tr =
     list_all (\<lambda>(s, s'). (leds s' \<noteq> leds s \<or> pixelstream s' \<noteq> pixelstream s)
                 \<longrightarrow> mutex s \<and> mutex s') (steps tr)"

definition frame_and_transport_under_lock :: "ws281x_array list \<Rightarrow> bool" where
  "frame_and_transport_under_lock tr =
     list_all (\<lambda>(s, s'). (pixelstream s' \<noteq> pixelstream s \<or> transfers (spi s') \<noteq> transfers (spi s))
                 \<longrightarrow> mutex s \<and> mutex s') (steps tr)"

text \<open>A transport that accepts every transfer, and the spec's discipline for one call.\<close>

definition spi_sync_ok :: "spi_transfer \<Rightarrow> int" where
  "spi_sync_ok x = 0"

definition update_under_lock :: "(spi_transfer \<Rightarrow> int) \<Rightarrow> nat \<Rightarrow> u32 \<Rightarrow> ws281x_array \<Rightarrow> bool" where
  "update_under_lock spi_sync k b ws =
     (case ws281x_brightness_set_blocking_trace spi_sync k b ws of
        None \<Rightarrow> True
      | Some (tr, ret) \<Rightarrow> state_and_frame_under_lock tr)"

text \<open>
  A sequence of calls of \<^verbatim>\<open>ws281x_brightness_set_blocking\<close>, each given as the LED
  index and the brightness; the result is the values returned and the last state.
\<close>

fun brightness_set_calls ::
  "(spi_transfer \<Rightarrow> int) \<Rightarrow> (nat \<times> u32) list \<Rightarrow> ws281x_array \<Rightarrow> (int list \<times> ws281x_array) option" where
  "brightness_set_calls spi_sync [] ws = Some ([], ws)"
| "brightness_set_calls spi_sync ((k, b) # cs) ws =
     (case ws281x_brightness_set_blocking spi_sync k b ws of
        None \<Rightarrow> None
      | Some (ret, ws') \<Rightarrow>
          (case brightness_set_calls spi_sync cs ws' of
             None \<Rightarrow> None
           | Some (rets, ws'') \<Rightarrow> Some (ret # rets, ws'')))"

section \<open>Registration and setup\<close>

text \<open>
  Modelled from the spec: the invalid-argument and allocation errors of setup, the
  channel identifiers red, green and blue, the brightness range 0 to 255, and mode 0 of
  the transport. The values are those of the kernel headers, which are not part of this
  repository.
\<close>

definition EINVAL :: int where "EINVAL = 22"
definition ENOMEM :: int where "ENOMEM = 12"
definition LED_COLOR_ID_RED :: u32 where "LED_COLOR_ID_RED = 1"
definition LED_COLOR_ID_GREEN :: u32 where "LED_COLOR_ID_GREEN = 2"
definition LED_COLOR_ID_BLUE :: u32 where "LED_COLOR_ID_BLUE = 3"
definition LED_OFF :: u32 where "LED_OFF = 0"
definition LED_FULL :: u32 where "LED_FULL = 255"
definition SPI_MODE_0 :: u32 where "SPI_MODE_0 = 0"

text \<open>
  What the device holds through the \<^verbatim>\<open>devm_\<close> calls of the driver (the device-managed
  resources of the kernel, released when the probe fails or the device goes), in the
  order of the calls: the chain (with the number of LEDs), the mutex, the frame buffer
  (with its size in bytes), the sub-LED array of LED \<open>num\<close>, the registered class device
  of LED \<open>num\<close>.
\<close>

datatype devres =
  Devres_chain nat
| Devres_mutex
| Devres_pixelstream nat
| Devres_subled nat
| Devres_led_classdev nat

text \<open>
  The environment of a probe. A child node carries what the two calls made for it give:
  whether \<^verbatim>\<open>devm_kmalloc_array\<close> returns memory and what that memory, which is not
  initialised, holds at each index; and the value
  \<^verbatim>\<open>devm_led_classdev_multicolor_register_ext\<close> returns. The device carries its
  \<^verbatim>\<open>compatible\<close> string, its child nodes, and the outcomes of the chain allocation, of
  \<^verbatim>\<open>devm_mutex_init\<close>, of \<^verbatim>\<open>spi_setup\<close> and of the frame-buffer allocation.
\<close>

record child_node =
  subled_alloc_ok :: bool
  subled_mem :: "nat \<Rightarrow> mc_subled"
  register_ret :: int

record probe_env =
  compatible :: string
  children :: "child_node list"
  chain_alloc_ok :: bool
  mutex_init_ret :: int
  spi_setup_ret :: int
  pixelstream_alloc_ok :: bool

text \<open>
  \<^verbatim>\<open>ws281x_spi_dt_ids\<close> and the lookup of the match data: \<^verbatim>\<open>NULL\<close> (\<open>None\<close>) when no
  entry of the table matches. \<^verbatim>\<open>device_get_child_node_count\<close> returns an
  \<^verbatim>\<open>unsigned int\<close>.
\<close>

definition ws281x_spi_dt_ids :: "(string \<times> ws281x_chipinfo) list" where
  "ws281x_spi_dt_ids = [(''worldsemi,ws2812b-spi'', ws2812b_info)]"

definition device_get_match_data :: "probe_env \<Rightarrow> ws281x_chipinfo option" where
  "device_get_match_data env = map_of ws281x_spi_dt_ids (compatible env)"

definition device_get_child_node_count :: "probe_env \<Rightarrow> u32" where
  "device_get_child_node_count env = of_nat (length (children env))"

text \<open>The store \<^verbatim>\<open>mc_led_info[i].color_index = c\<close>; out of range is \<open>None\<close>.\<close>

definition set_color_index :: "mc_subled list \<Rightarrow> nat \<Rightarrow> u32 \<Rightarrow> mc_subled list option" where
  "set_color_index xs i c =
     (if i < length xs then Some (xs[i := (xs ! i)\<lparr>color_index := c\<rparr>]) else None)"

text \<open>
  \<^verbatim>\<open>ws281x_register_leds\<close>: the loop over the child nodes, with the counter \<^verbatim>\<open>num\<close>.
  A \<^verbatim>\<open>NULL\<close> from the allocation is not checked by the driver, so the first store
  through it is \<open>None\<close>. A failed registration returns its error at once.
\<close>

fun ws281x_register_leds_loop ::
  "child_node list \<Rightarrow> nat \<Rightarrow> ws281x_array \<Rightarrow> devres list \<Rightarrow> (int \<times> ws281x_array \<times> devres list) option" where
  "ws281x_register_leds_loop [] num ws dr = Some (0, ws, dr)"
| "ws281x_register_leds_loop (c # cs) num ws dr =
     (if \<not> subled_alloc_ok c then None
      else
        (case set_color_index (map (subled_mem c) [0..<unat (ch_per_led (info ws))]) 0
                LED_COLOR_ID_RED of
           None \<Rightarrow> None
         | Some m0 \<Rightarrow>
             (case set_color_index m0 1 LED_COLOR_ID_GREEN of
                None \<Rightarrow> None
              | Some m1 \<Rightarrow>
                  (case set_color_index m1 2 LED_COLOR_ID_BLUE of
                     None \<Rightarrow> None
                   | Some mc_led_info \<Rightarrow>
                       (case nth_opt (leds ws) num of
                          None \<Rightarrow> None
                        | Some l \<Rightarrow>
                            (let l' = l\<lparr>led := (led l)
                                       \<lparr>subled_info := mc_led_info,
                                        num_colors := ucast (ch_per_led (info ws)),
                                        led_cdev := (led_cdev (led l))
                                          \<lparr>cdev_brightness := LED_OFF,
                                           max_brightness := LED_FULL,
                                           brightness_set_blocking := True\<rparr>\<rparr>\<rparr>;
                                 ws' = ws\<lparr>leds := (leds ws)[num := l']\<rparr>;
                                 dr' = dr @ [Devres_subled num]
                             in if register_ret c \<noteq> 0 then Some (register_ret c, ws', dr')
                                else ws281x_register_leds_loop cs (Suc num) ws'
                                       (dr' @ [Devres_led_classdev num])))))))"

definition ws281x_register_leds ::
  "probe_env \<Rightarrow> ws281x_array \<Rightarrow> devres list \<Rightarrow> (int \<times> ws281x_array \<times> devres list) option" where
  "ws281x_register_leds env ws dr = ws281x_register_leds_loop (children env) 0 ws dr"

text \<open>
  \<^verbatim>\<open>ws281x_spi_probe\<close>. A failure is \<open>Inl\<close> of the error returned and of what the device
  holds at that point (the driver core releases it); success is \<open>Inr\<close> of the chain and
  of what the device holds. \<open>None\<close> is a fault: the match data is \<^verbatim>\<open>NULL\<close> where
  \<^verbatim>\<open>info->write_freq\<close> is read, or the registration faults. The chain comes zeroed from
  \<^verbatim>\<open>devm_kzalloc\<close> and the frame buffer zeroed from \<^verbatim>\<open>devm_kcalloc\<close>; the size
  \<^verbatim>\<open>pixel_sz * count\<close> is a \<^verbatim>\<open>size_t\<close> product of a \<^verbatim>\<open>u8\<close> and an
  \<^verbatim>\<open>unsigned int\<close> value, which does not wrap in 64 bits.
\<close>

definition zeroed_led :: ws281x_led where
  "zeroed_led =
     \<lparr>led = \<lparr>led_cdev = \<lparr>cdev_brightness = 0, max_brightness = 0, brightness_set_blocking = False\<rparr>,
             num_colors = 0, subled_info = []\<rparr>\<rparr>"

definition ws281x_spi_probe ::
  "probe_env \<Rightarrow> spi_device \<Rightarrow> ((int \<times> devres list) + (ws281x_array \<times> devres list)) option" where
  "ws281x_spi_probe env spi0 =
     (let count = device_get_child_node_count env in
      if count = 0 then Some (Inl (- EINVAL, []))
      else if \<not> chain_alloc_ok env then Some (Inl (- ENOMEM, []))
      else if mutex_init_ret env \<noteq> 0 then Some (Inl (mutex_init_ret env, [Devres_chain (unat count)]))
      else
        (case device_get_match_data env of
           None \<Rightarrow> None
         | Some ci \<Rightarrow>
             (let spi1 = spi0\<lparr>mode := SPI_MODE_0, bits_per_word := 8, max_speed_hz := write_freq ci\<rparr>;
                  dr = [Devres_chain (unat count), Devres_mutex]
              in if spi_setup_ret env \<noteq> 0 then Some (Inl (spi_setup_ret env, dr))
                 else if \<not> pixelstream_alloc_ok env then Some (Inl (- ENOMEM, dr))
                 else
                   (case ws281x_register_leds env
                           \<lparr>mutex = False, info = ci,
                            pixelstream = replicate (unat (pixel_sz ci) * unat count) 0,
                            num_leds = count,
                            leds = replicate (unat count) zeroed_led,
                            spi = spi1\<rparr>
                           (dr @ [Devres_pixelstream (unat (pixel_sz ci) * unat count)]) of
                      None \<Rightarrow> None
                    | Some (ret, ws, dr') \<Rightarrow>
                        if ret \<noteq> 0 then Some (Inl (ret, dr')) else Some (Inr (ws, dr'))))))"

text \<open>An environment with two child nodes in which every call succeeds.\<close>

definition example_child :: child_node where
  "example_child =
     \<lparr>subled_alloc_ok = True,
      subled_mem = (\<lambda>i. \<lparr>color_index = 0, brightness = 0, intensity = 255, channel = 0\<rparr>),
      register_ret = 0\<rparr>"

definition example_env :: probe_env where
  "example_env =
     \<lparr>compatible = ''worldsemi,ws2812b-spi'', children = [example_child, example_child],
      chain_alloc_ok = True, mutex_init_ret = 0, spi_setup_ret = 0,
      pixelstream_alloc_ok = True\<rparr>"

definition example_spi :: spi_device where
  "example_spi = \<lparr>mode = 3, bits_per_word = 16, max_speed_hz = 1000000, transfers = []\<rparr>"

text \<open>
  A transport that fails every transfer with \<open>-5\<close> (\<^verbatim>\<open>-EIO\<close>), and the state of LED 1
  of the example chain after a brightness of 128.
\<close>

definition spi_sync_fail :: "spi_transfer \<Rightarrow> int" where
  "spi_sync_fail x = - 5"

definition example_dimmed :: led_classdev_mc where
  "example_dimmed =
     (led (example_led 255 0 0))
       \<lparr>subled_info :=
          [\<lparr>color_index = 1, brightness = 128, intensity = 255, channel = 0\<rparr>,
           \<lparr>color_index = 2, brightness = 0, intensity = 0, channel = 0\<rparr>,
           \<lparr>color_index = 3, brightness = 0, intensity = 0, channel = 0\<rparr>]\<rparr>"

text \<open>
  An LED as the registration loop leaves it: a sub-LED array of \<^verbatim>\<open>ch_per_led\<close> entries
  whose first three carry the colours red, green, blue, in this order.
\<close>

definition registered_led :: "ws281x_chipinfo \<Rightarrow> ws281x_led \<Rightarrow> bool" where
  "registered_led ci l \<longleftrightarrow>
     length (subled_info (led l)) = unat (ch_per_led ci)
     \<and> map color_index (take 3 (subled_info (led l))) =
         [LED_COLOR_ID_RED, LED_COLOR_ID_GREEN, LED_COLOR_ID_BLUE]"

text \<open>Whether a resource is a frame buffer.\<close>

fun is_pixelstream :: "devres \<Rightarrow> bool" where
  "is_pixelstream (Devres_pixelstream n) = True"
| "is_pixelstream _ = False"

text \<open>What the probe gives in the example environment: the chain and what the device holds.\<close>

definition example_probed :: ws281x_array where
  "example_probed =
     \<lparr>mutex = False, info = ws2812b_info, pixelstream = replicate 48 0, num_leds = 2,
      leds = replicate 2
        \<lparr>led = \<lparr>led_cdev = \<lparr>cdev_brightness = 0, max_brightness = 255, brightness_set_blocking = True\<rparr>,
                num_colors = 3,
                subled_info =
                  [\<lparr>color_index = 1, brightness = 0, intensity = 255, channel = 0\<rparr>,
                   \<lparr>color_index = 2, brightness = 0, intensity = 255, channel = 0\<rparr>,
                   \<lparr>color_index = 3, brightness = 0, intensity = 255, channel = 0\<rparr>]\<rparr>\<rparr>,
      spi = \<lparr>mode = 0, bits_per_word = 8, max_speed_hz = 6400000, transfers = []\<rparr>\<rparr>"

definition example_devres :: "devres list" where
  "example_devres =
     [Devres_chain 2, Devres_mutex, Devres_pixelstream 48,
      Devres_subled 0, Devres_led_classdev 0, Devres_subled 1, Devres_led_classdev 1]"

section \<open>Properties of the encoders\<close>

lemma top_bit: "(pixel AND 0x80 \<noteq> 0) = bit (pixel::u8) 7"
proof -
  have "(0x80::u8) = 2 ^ 7" by simp
  then show ?thesis by (simp only: and_exp_eq_0_iff_not_bit) simp
qed

lemma shifted_bit:
  "(k < 8 \<and> bit (push_bit 1 (p::u8)) (7 - k)) = (Suc k < 8 \<and> bit p (7 - Suc k))"
  unfolding bit_push_bit_iff by auto

lemma bit_symbols:
  "j < n \<Longrightarrow> subpixel_symbols ci n pixel ! j = symbol_of ci (j < 8 \<and> bit pixel (7 - j))"
proof (induction n arbitrary: j pixel)
  case 0 then show ?case by simp
next
  case (Suc n)
  show ?case
  proof (cases j)
    case 0 then show ?thesis by simp
  next
    case (Suc k)
    then have "k < n" using Suc.prems by simp
    from Suc.IH[OF this, of "push_bit 1 pixel"] Suc show ?thesis
      by (simp only: subpixel_symbols.simps nth_Cons_Suc shifted_bit)
  qed
qed

lemma length_symbols [simp]: "length (subpixel_symbols ci n pixel) = n"
  by (induction n arbitrary: pixel) auto

lemma loop_symbols:
  "i \<le> unat (subpixel_sz ci) \<Longrightarrow> off + unat (subpixel_sz ci) \<le> length buf \<Longrightarrow>
   ws281x_format_subpixel_loop ci buf off i pixel =
     Some (take (off + i) buf @ subpixel_symbols ci (unat (subpixel_sz ci) - i) pixel
           @ drop (off + unat (subpixel_sz ci)) buf)"
proof (induction ci buf off i pixel rule: ws281x_format_subpixel_loop.induct)
  case (1 ci buf off i pixel)
  show ?case
  proof (cases "i < unat (subpixel_sz ci)")
    case False
    with "1.prems" have "i = unat (subpixel_sz ci)" by simp
    with "1.prems" show ?thesis
      by (subst ws281x_format_subpixel_loop.simps) simp
  next
    case True
    let ?n = "unat (subpixel_sz ci)"
    define s where "s = (if pixel AND 0x80 \<noteq> 0 then one_val ci else zero_val ci)"
    define q where "q = push_bit 1 pixel"
    have s: "s = symbol_of ci (bit pixel 7)"
      by (simp only: s_def top_bit symbol_of_def)
    have inb: "off + i < length buf" using True "1.prems" by simp
    have IH: "ws281x_format_subpixel_loop ci (buf[off + i := s]) off (Suc i) q =
       Some (take (off + Suc i) (buf[off + i := s]) @ subpixel_symbols ci (?n - Suc i) q
           @ drop (off + ?n) (buf[off + i := s]))"
      using "1.IH"[OF True inb] True "1.prems" unfolding s_def q_def by simp
    have sn: "?n - i = Suc (?n - Suc i)" using True by simp
    have t: "take (off + Suc i) (buf[off + i := s]) = take (off + i) buf @ [s]"
      using inb by (simp add: take_Suc_conv_app_nth)
    have d: "drop (off + ?n) (buf[off + i := s]) = drop (off + ?n) buf"
      using True by simp
    have "ws281x_format_subpixel_loop ci buf off i pixel =
          ws281x_format_subpixel_loop ci (buf[off + i := s]) off (Suc i) q"
      by (subst ws281x_format_subpixel_loop.simps) (simp only: True inb if_True s_def q_def)
    also note IH
    also have "Some (take (off + Suc i) (buf[off + i := s]) @ subpixel_symbols ci (?n - Suc i) q
           @ drop (off + ?n) (buf[off + i := s])) = Some (take (off + i) buf @ subpixel_symbols ci (?n - i) pixel
           @ drop (off + ?n) buf)"
      unfolding t d by (simp only: sn subpixel_symbols.simps s q_def append_Cons append_Nil append_assoc)
    finally show ?thesis .
  qed
qed

lemma decode_step:
  "n < 8 \<Longrightarrow> push_bit n (push_bit 1 acc OR (if bit p 7 then 1 else 0)) OR drop_bit (8 - n) (push_bit 1 p)
     = push_bit (Suc n) acc OR drop_bit (7 - n) (p::u8)"
proof (rule bit_eqI)
  fix k
  assume n: "n < 8" and k: "possible_bit TYPE(u8) k"
  then have k8: "k < 8" by simp
  have b1: "bit (if bit p 7 then 1 else 0 :: u8) m = (m = 0 \<and> bit p 7)" for m
    by (simp add: bit_1_iff)
  have hi: "bit p m \<Longrightarrow> m < 8" for m
    using bit_imp_le_length[of p m] by simp
  consider "k < n" | "k = n" | "n < k" by linarith
  then show "bit (push_bit n (push_bit 1 acc OR (if bit p 7 then 1 else 0)) OR drop_bit (8 - n) (push_bit 1 p)) k
     = bit (push_bit (Suc n) acc OR drop_bit (7 - n) p) k"
  proof cases
    case 1
    then show ?thesis
      unfolding bit_or_iff bit_push_bit_iff bit_drop_bit_eq b1
      using n k8 by (auto dest: hi)
  next
    case 2
    then show ?thesis
      unfolding bit_or_iff bit_push_bit_iff bit_drop_bit_eq b1
      using n k8 by (auto dest: hi)
  next
    case 3
    then have "\<not> bit p (7 - n + k)" using hi[of "7 - n + k"] n by auto
    with 3 show ?thesis
      unfolding bit_or_iff bit_push_bit_iff bit_drop_bit_eq b1
      using n k8 by (auto dest: hi)
  qed
qed

lemma decode_symbols:
  assumes "one_val ci \<noteq> zero_val ci"
  shows "n \<le> 8 \<Longrightarrow> foldl (\<lambda>acc s. push_bit 1 acc OR decode_symbol ci s) acc (subpixel_symbols ci n p)
     = push_bit n acc OR drop_bit (8 - n) p"
proof (induction n arbitrary: acc p)
  case 0
  have "drop_bit 8 p = 0" by (rule bit_eqI) (auto simp: bit_drop_bit_eq dest: bit_imp_le_length)
  then show ?case by simp
next
  case (Suc n)
  have ds: "decode_symbol ci (symbol_of ci b) = (if b then 1 else 0)" for b
    using assms by (simp add: decode_symbol_def symbol_of_def)
  have n: "n < 8" "n \<le> 8" using Suc.prems by simp_all
  have e: "8 - Suc n = 7 - n" by simp
  show ?case
    unfolding subpixel_symbols.simps foldl_Cons ds Suc.IH[OF n(2)] e
    by (rule decode_step[OF n(1)])
qed

lemma decode_roundtrip:
  "one_val ci \<noteq> zero_val ci \<Longrightarrow> decode_subpixel ci (subpixel_symbols ci 8 p) = p"
  unfolding decode_subpixel_def by (subst decode_symbols) simp_all

lemma subpixel_symbols_map:
  "subpixel_symbols ci n pixel = map (\<lambda>j. symbol_of ci (j < 8 \<and> bit pixel (7 - j))) [0..<n]"
  by (rule nth_equalityI) (simp_all add: bit_symbols)

lemma set_subpixel_symbols: "set (subpixel_symbols ci n pixel) \<subseteq> {zero_val ci, one_val ci}"
  by (induction n arbitrary: pixel) (auto simp: symbol_of_def)

lemma format_subpixel_symbols:
  assumes "off + unat (subpixel_sz ci) \<le> length buf"
  shows "ws281x_format_subpixel ci buf off pixel =
     Some (take off buf @ subpixel_symbols ci (unat (subpixel_sz ci)) pixel
           @ drop (off + unat (subpixel_sz ci)) buf)"
  unfolding ws281x_format_subpixel_def using loop_symbols[of 0 ci off buf pixel] assms by simp

text \<open>
  C1. \<^verbatim>\<open>ws281x_format_subpixel\<close> writes exactly \<^verbatim>\<open>subpixel_sz\<close> bytes, at the offsets
  \<open>off\<close> to \<open>off + subpixel_sz - 1\<close> of the buffer, and leaves every other byte as it
  was. Position \<open>j\<close> of the written region holds \<^verbatim>\<open>one_val\<close> when bit \<open>7 - j\<close> of the
  brightness byte is set and \<^verbatim>\<open>zero_val\<close> otherwise: one symbol per bit, most
  significant bit first (a position beyond the eighth, which only a profile with
  \<^verbatim>\<open>subpixel_sz\<close> above 8 has, finds the byte shifted out and holds \<^verbatim>\<open>zero_val\<close>).
  For a profile with \<^verbatim>\<open>subpixel_sz = 8\<close> and two distinct symbols, decoding the
  written region position by position gives the brightness byte back.
\<close>

theorem format_subpixel_msb_first_roundtrip:
  assumes "off + unat (subpixel_sz ci) \<le> length buf"
  shows "\<exists>out. ws281x_format_subpixel ci buf off pixel = Some out
           \<and> length out = length buf
           \<and> take off out = take off buf
           \<and> drop (off + unat (subpixel_sz ci)) out = drop (off + unat (subpixel_sz ci)) buf
           \<and> take (unat (subpixel_sz ci)) (drop off out) =
               map (\<lambda>j. if j < 8 \<and> bit pixel (7 - j) then one_val ci else zero_val ci)
                 [0..<unat (subpixel_sz ci)]
           \<and> (subpixel_sz ci = 8 \<and> one_val ci \<noteq> zero_val ci \<longrightarrow>
                decode_subpixel ci (take (unat (subpixel_sz ci)) (drop off out)) = pixel)"
proof -
  let ?n = "unat (subpixel_sz ci)"
  let ?out = "take off buf @ subpixel_symbols ci ?n pixel @ drop (off + ?n) buf"
  have off: "off \<le> length buf" using assms by simp
  have 1: "ws281x_format_subpixel ci buf off pixel = Some ?out"
    by (rule format_subpixel_symbols [OF assms])
  have 2: "length ?out = length buf" using assms by simp
  have 3: "take off ?out = take off buf" using off by simp
  have 4: "drop (off + ?n) ?out = drop (off + ?n) buf" using off by simp
  have 5: "take ?n (drop off ?out) = subpixel_symbols ci ?n pixel" using off by simp
  have 6: "subpixel_symbols ci ?n pixel =
      map (\<lambda>j. if j < 8 \<and> bit pixel (7 - j) then one_val ci else zero_val ci) [0..<?n]"
    unfolding subpixel_symbols_map symbol_of_def ..
  have 7: "decode_subpixel ci (take ?n (drop off ?out)) = pixel"
    if "subpixel_sz ci = 8" "one_val ci \<noteq> zero_val ci"
    unfolding 5 using that by (simp add: decode_roundtrip)
  from 1 2 3 4 5 6 7 show ?thesis by (intro exI [of _ ?out] conjI impI) simp_all
qed

theorem format_subpixel_msb_first_roundtrip_witness:
  "1 + unat (subpixel_sz ws2812b_info) \<le> length (replicate 10 (0::u8))
   \<and> ws281x_format_subpixel ws2812b_info (replicate 10 0) 1 0xA5 =
       Some [0, 0xFC, 0xC0, 0xFC, 0xC0, 0xC0, 0xFC, 0xC0, 0xFC, 0]
   \<and> decode_subpixel ws2812b_info [0xFC, 0xC0, 0xFC, 0xC0, 0xC0, 0xFC, 0xC0, 0xFC] = 0xA5"
proof -
  have h: "1 + unat (subpixel_sz ws2812b_info) \<le> length (replicate 10 (0::u8))"
    by (simp add: ws2812b_info_def BITS_PER_BYTE_def)
  have e: "ws281x_format_subpixel ws2812b_info (replicate 10 0) 1 0xA5 =
       Some [0, 0xFC, 0xC0, 0xFC, 0xC0, 0xC0, 0xFC, 0xC0, 0xFC, 0]"
    by code_simp
  have p: "subpixel_sz ws2812b_info = 8 \<and> one_val ws2812b_info \<noteq> zero_val ws2812b_info"
    by (simp add: ws2812b_info_def BITS_PER_BYTE_def)
  from format_subpixel_msb_first_roundtrip [OF h, of "0xA5"] e p
  have "decode_subpixel ws2812b_info [0xFC, 0xC0, 0xFC, 0xC0, 0xC0, 0xFC, 0xC0, 0xFC] = 0xA5"
    by (auto simp: ws2812b_info_def BITS_PER_BYTE_def)
  with h e show ?thesis by simp
qed

lemma format_pixel_grb_symbols:
  assumes "off + 3 * unat (subpixel_sz ci) \<le> length buf"
  shows "ws2812_format_pixel_grb ci buf off g r b =
     Some (take off buf @ subpixel_symbols ci (unat (subpixel_sz ci)) g
           @ subpixel_symbols ci (unat (subpixel_sz ci)) r
           @ subpixel_symbols ci (unat (subpixel_sz ci)) b
           @ drop (off + 3 * unat (subpixel_sz ci)) buf)"
proof -
  let ?n = "unat (subpixel_sz ci)"
  let ?S = "subpixel_symbols ci ?n"
  define buf1 where "buf1 = take off buf @ ?S g @ drop (off + ?n) buf"
  define buf2 where "buf2 = take (off + ?n) buf1 @ ?S r @ drop (off + ?n + ?n) buf1"
  define buf3 where "buf3 = take (off + ?n + ?n) buf2 @ ?S b @ drop (off + ?n + ?n + ?n) buf2"
  have l1: "length buf1 = length buf" using assms by (simp add: buf1_def)
  have l2: "length buf2 = length buf" using assms l1 by (simp add: buf2_def)
  have 1: "ws281x_format_subpixel ci buf off g = Some buf1"
    unfolding buf1_def using assms by (intro format_subpixel_symbols) simp
  have 2: "ws281x_format_subpixel ci buf1 (off + ?n) r = Some buf2"
    unfolding buf2_def using assms l1 by (intro format_subpixel_symbols) simp
  have 3: "ws281x_format_subpixel ci buf2 (off + ?n + ?n) b = Some buf3"
    unfolding buf3_def using assms l2 by (intro format_subpixel_symbols) simp
  have t2: "take (off + ?n) buf1 = take off buf @ ?S g"
    using assms by (simp add: buf1_def)
  have d2: "drop (off + ?n + ?n) buf1 = drop (off + ?n + ?n) buf"
    using assms by (simp add: buf1_def add_ac)
  have b2: "buf2 = take off buf @ ?S g @ ?S r @ drop (off + ?n + ?n) buf"
    unfolding buf2_def t2 d2 by simp
  have t3: "take (off + ?n + ?n) buf2 = take off buf @ ?S g @ ?S r"
    using assms by (simp add: b2)
  have d3: "drop (off + ?n + ?n + ?n) buf2 = drop (off + ?n + ?n + ?n) buf"
    using assms by (simp add: b2 add_ac)
  have e3: "off + ?n + ?n + ?n = off + 3 * ?n" by simp
  have b3: "buf3 = take off buf @ ?S g @ ?S r @ ?S b @ drop (off + 3 * ?n) buf"
    unfolding buf3_def t3 d3 unfolding e3 by simp
  show ?thesis
    unfolding ws2812_format_pixel_grb_def 1 2 3 option.case b3 ..
qed

text \<open>
  C2. \<^verbatim>\<open>ws2812_format_pixel_grb\<close>, given a region of \<^verbatim>\<open>pixel_sz\<close> bytes at \<open>off\<close> and
  a profile whose pixel is three subpixels, writes that region and nothing else. The
  first \<^verbatim>\<open>subpixel_sz\<close> bytes of the region are what \<^verbatim>\<open>ws281x_format_subpixel\<close>
  writes for green, the next for red, the last for blue: the order of transmission is
  G, R, B.
\<close>

theorem format_pixel_grb_order:
  assumes "off + unat (pixel_sz ci) \<le> length buf"
    and "unat (pixel_sz ci) = 3 * unat (subpixel_sz ci)"
  shows "\<exists>out. ws2812_format_pixel_grb ci buf off g r b = Some out
           \<and> length out = length buf
           \<and> take off out = take off buf
           \<and> drop (off + unat (pixel_sz ci)) out = drop (off + unat (pixel_sz ci)) buf
           \<and> ws281x_format_subpixel ci (replicate (unat (subpixel_sz ci)) 0) 0 g =
               Some (take (unat (subpixel_sz ci)) (drop off out))
           \<and> ws281x_format_subpixel ci (replicate (unat (subpixel_sz ci)) 0) 0 r =
               Some (take (unat (subpixel_sz ci)) (drop (off + unat (subpixel_sz ci)) out))
           \<and> ws281x_format_subpixel ci (replicate (unat (subpixel_sz ci)) 0) 0 b =
               Some (take (unat (subpixel_sz ci)) (drop (off + 2 * unat (subpixel_sz ci)) out))"
proof -
  let ?n = "unat (subpixel_sz ci)"
  let ?S = "subpixel_symbols ci ?n"
  let ?out = "take off buf @ ?S g @ ?S r @ ?S b @ drop (off + 3 * ?n) buf"
  have fit: "off + 3 * ?n \<le> length buf" using assms by simp
  then have off: "off \<le> length buf" by simp
  have fresh: "ws281x_format_subpixel ci (replicate ?n 0) 0 x = Some (?S x)" for x
    using format_subpixel_symbols [of 0 ci "replicate ?n 0" x] by simp
  have 1: "ws2812_format_pixel_grb ci buf off g r b = Some ?out"
    by (rule format_pixel_grb_symbols [OF fit])
  have 2: "length ?out = length buf" using fit by simp
  have 3: "take off ?out = take off buf" using off by simp
  have 4: "drop (off + unat (pixel_sz ci)) ?out = drop (off + unat (pixel_sz ci)) buf"
    using off assms(2) by simp
  have 5: "take ?n (drop off ?out) = ?S g" using off by simp
  have 6: "take ?n (drop (off + ?n) ?out) = ?S r" using off by simp
  have 7: "take ?n (drop (off + 2 * ?n) ?out) = ?S b" using off by simp
  show ?thesis
    unfolding fresh
    by (intro exI [of _ ?out] conjI) (simp_all only: 1 2 3 4 5 6 7)
qed

theorem format_pixel_grb_order_witness:
  "0 + unat (pixel_sz ws2812b_info) \<le> length (replicate 24 (0::u8))
   \<and> unat (pixel_sz ws2812b_info) = 3 * unat (subpixel_sz ws2812b_info)
   \<and> ws2812_format_pixel_grb ws2812b_info (replicate 24 0) 0 0x10 0x20 0x30 =
       Some ([0xC0, 0xC0, 0xC0, 0xFC, 0xC0, 0xC0, 0xC0, 0xC0]
             @ [0xC0, 0xC0, 0xFC, 0xC0, 0xC0, 0xC0, 0xC0, 0xC0]
             @ [0xC0, 0xC0, 0xFC, 0xFC, 0xC0, 0xC0, 0xC0, 0xC0])
   \<and> ws281x_format_subpixel ws2812b_info (replicate 8 0) 0 0x10 =
       Some [0xC0, 0xC0, 0xC0, 0xFC, 0xC0, 0xC0, 0xC0, 0xC0]"
proof -
  have h1: "0 + unat (pixel_sz ws2812b_info) \<le> length (replicate 24 (0::u8))"
    by (simp add: ws2812b_info_def BITS_PER_BYTE_def)
  have h2: "unat (pixel_sz ws2812b_info) = 3 * unat (subpixel_sz ws2812b_info)"
    by (simp add: ws2812b_info_def BITS_PER_BYTE_def)
  have e: "ws2812_format_pixel_grb ws2812b_info (replicate 24 0) 0 0x10 0x20 0x30 =
       Some ([0xC0, 0xC0, 0xC0, 0xFC, 0xC0, 0xC0, 0xC0, 0xC0]
             @ [0xC0, 0xC0, 0xFC, 0xC0, 0xC0, 0xC0, 0xC0, 0xC0]
             @ [0xC0, 0xC0, 0xFC, 0xFC, 0xC0, 0xC0, 0xC0, 0xC0])"
    by code_simp
  have n: "unat (subpixel_sz ws2812b_info) = 8"
    by (simp add: ws2812b_info_def BITS_PER_BYTE_def)
  from format_pixel_grb_order [OF h1 h2, of "0x10" "0x20" "0x30"] e
  have "ws281x_format_subpixel ws2812b_info (replicate 8 0) 0 0x10 =
       Some [0xC0, 0xC0, 0xC0, 0xFC, 0xC0, 0xC0, 0xC0, 0xC0]"
    unfolding n by auto
  with h1 h2 e show ?thesis by simp
qed

section \<open>Properties of the frame rebuild\<close>

lemma length_pixel_symbols [simp]: "length (pixel_symbols ci l) = 3 * unat (subpixel_sz ci)"
  by (simp add: pixel_symbols_def)

lemma frame_of_Nil [simp]: "frame_of ci [] = []"
  by (simp add: frame_of_def)

lemma frame_of_Cons [simp]: "frame_of ci (l # ls) = pixel_symbols ci l @ frame_of ci ls"
  by (simp add: frame_of_def)

lemma length_frame_of [simp]: "length (frame_of ci ls) = length ls * (3 * unat (subpixel_sz ci))"
  by (induction ls) simp_all

lemma update_pixelstream_loop_frame:
  assumes "length (leds ws) = unat (num_leds ws)"
    and "list_all (\<lambda>l. 3 \<le> length (subled_info (led l))) (leds ws)"
    and "unat (pixel_sz (info ws)) = 3 * unat (subpixel_sz (info ws))"
    and "length (pixelstream ws) = unat (num_leds ws) * unat (pixel_sz (info ws))"
    and "i \<le> unat (num_leds ws)"
    and "off = i * unat (pixel_sz (info ws))"
  shows "ws281x_update_pixelstream_loop ws off i =
     Some (ws\<lparr>pixelstream := take off (pixelstream ws) @ frame_of (info ws) (drop i (leds ws))\<rparr>)"
  using assms
proof (induction ws off i rule: ws281x_update_pixelstream_loop.induct)
  case (1 ws off i)
  let ?n = "unat (num_leds ws)"
  let ?p = "unat (pixel_sz (info ws))"
  let ?ci = "info ws"
  show ?case
  proof (cases "i < ?n")
    case False
    with "1.prems" have i: "i = ?n" by simp
    have "take off (pixelstream ws) @ frame_of ?ci (drop i (leds ws)) = pixelstream ws"
      using "1.prems" i by simp
    then show ?thesis
      using False by (subst ws281x_update_pixelstream_loop.simps) simp
  next
    case True
    define l where "l = leds ws ! i"
    define s1 where "s1 = subled_info (led l) ! 1"
    define s0 where "s0 = subled_info (led l) ! 0"
    define s2 where "s2 = subled_info (led l) ! 2"
    have il: "i < length (leds ws)" using True "1.prems" by simp
    then have lin: "l \<in> set (leds ws)" by (simp add: l_def)
    then have l3: "3 \<le> length (subled_info (led l))"
      using "1.prems"(2) by (simp add: list_all_iff)
    have n0: "nth_opt (leds ws) i = Some l" using il by (simp add: nth_opt_def l_def)
    have n1: "nth_opt (subled_info (led l)) 1 = Some s1" using l3 by (simp add: nth_opt_def s1_def)
    have n2: "nth_opt (subled_info (led l)) 0 = Some s0" using l3 by (auto simp: nth_opt_def s0_def)
    have n3: "nth_opt (subled_info (led l)) 2 = Some s2" using l3 by (simp add: nth_opt_def s2_def)
    have "Suc i * ?p \<le> ?n * ?p" using True by (intro mult_le_mono1) simp
    then have fit: "off + ?p \<le> length (pixelstream ws)" using "1.prems" by simp
    then have fit3: "off + 3 * unat (subpixel_sz ?ci) \<le> length (pixelstream ws)"
      using "1.prems"(3) by simp
    define buf where "buf = take off (pixelstream ws) @ pixel_symbols ?ci l @ drop (off + ?p) (pixelstream ws)"
    have g: "ws2812_format_pixel_grb ?ci (pixelstream ws) off (ucast (brightness s1))
               (ucast (brightness s0)) (ucast (brightness s2)) = Some buf"
      unfolding format_pixel_grb_symbols [OF fit3] buf_def pixel_symbols_def s1_def s0_def s2_def
      using "1.prems"(3) by simp
    have lb: "length buf = length (pixelstream ws)"
      using fit "1.prems"(3) by (simp add: buf_def)
    have IH: "ws281x_update_pixelstream_loop (ws\<lparr>pixelstream := buf\<rparr>) (off + ?p) (Suc i) =
       Some (ws\<lparr>pixelstream := take (off + ?p) buf @ frame_of ?ci (drop (Suc i) (leds ws))\<rparr>)"
      using "1.IH" [OF True n0 n1 n2 n3 g] "1.prems" True lb by simp
    have tk: "take (off + ?p) buf = take off (pixelstream ws) @ pixel_symbols ?ci l"
      using fit "1.prems"(3) by (simp add: buf_def)
    have dr: "drop i (leds ws) = l # drop (Suc i) (leds ws)"
      using il by (simp add: l_def Cons_nth_drop_Suc)
    have "ws281x_update_pixelstream_loop ws off i =
          ws281x_update_pixelstream_loop (ws\<lparr>pixelstream := buf\<rparr>) (off + ?p) (Suc i)"
      by (subst ws281x_update_pixelstream_loop.simps) (simp only: True if_True n0 n1 n2 n3 g option.case)
    also note IH
    finally show ?thesis unfolding tk dr by simp
  qed
qed

lemma update_pixelstream_frame:
  assumes "chain_wf ws"
  shows "ws281x_update_pixelstream ws = Some (ws\<lparr>pixelstream := frame_of (info ws) (leds ws)\<rparr>)"
  unfolding ws281x_update_pixelstream_def
  using update_pixelstream_loop_frame [of ws 0 0] assms by (simp add: chain_wf_def)

lemma frame_of_append: "frame_of ci (xs @ ys) = frame_of ci xs @ frame_of ci ys"
  by (simp add: frame_of_def)

lemma take_app_len: "length xs = n \<Longrightarrow> take n (xs @ ys) = xs"
  by simp

lemma drop_app_len2: "length xs = n \<Longrightarrow> length ys = m \<Longrightarrow> drop (n + m) (xs @ ys @ zs) = zs"
  by simp

lemma frame_of_update:
  assumes "k < length ls"
  shows "frame_of ci (ls[k := l']) =
     take (k * (3 * unat (subpixel_sz ci))) (frame_of ci ls) @ pixel_symbols ci l'
     @ drop (Suc k * (3 * unat (subpixel_sz ci))) (frame_of ci ls)"
proof -
  let ?p = "3 * unat (subpixel_sz ci)"
  have ls: "ls = take k ls @ (ls ! k) # drop (Suc k) ls"
    using assms by (simp add: id_take_nth_drop [symmetric])
  have f: "frame_of ci ls = frame_of ci (take k ls) @ pixel_symbols ci (ls ! k) @ frame_of ci (drop (Suc k) ls)"
    by (subst ls) (simp only: frame_of_append frame_of_Cons)
  have lk: "length (frame_of ci (take k ls)) = k * ?p" using assms by simp
  have t: "take (k * ?p) (frame_of ci ls) = frame_of ci (take k ls)"
    unfolding f by (rule take_app_len [OF lk])
  have e: "Suc k * ?p = k * ?p + ?p" by simp
  have d: "drop (Suc k * ?p) (frame_of ci ls) = frame_of ci (drop (Suc k) ls)"
    unfolding f e by (rule drop_app_len2 [OF lk]) simp
  have "frame_of ci (ls[k := l']) = frame_of ci (take k ls) @ pixel_symbols ci l' @ frame_of ci (drop (Suc k) ls)"
    using assms by (simp only: upd_conv_take_nth_drop frame_of_append frame_of_Cons)
  then show ?thesis unfolding t d .
qed

lemma set_pixel_symbols: "set (pixel_symbols ci l) \<subseteq> {zero_val ci, one_val ci}"
  unfolding pixel_symbols_def using set_subpixel_symbols [of ci] by auto

lemma set_frame_of: "set (frame_of ci ls) \<subseteq> {zero_val ci, one_val ci}"
  using set_pixel_symbols [of ci] by (induction ls) auto

lemma chain_wf_frame:
  assumes "chain_wf ws"
  shows "chain_wf (ws\<lparr>pixelstream := frame_of (info ws) (leds ws)\<rparr>)"
  using assms by (simp add: chain_wf_def)

lemma chain_wf_led_update:
  assumes "chain_wf ws" "3 \<le> length (subled_info (led l'))"
  shows "chain_wf (ws\<lparr>leds := (leds ws)[k := l']\<rparr>)"
  using assms by (auto simp: chain_wf_def list_all_iff dest: set_update_subset_insert [THEN subsetD])

lemma chain_wf_example: "chain_wf example_chain"
  by (simp add: chain_wf_def example_chain_def example_led_def ws2812b_info_def BITS_PER_BYTE_def)

text \<open>
  C5. The end-to-end example: rebuilding the frame of the two-LED chain under
  \<^verbatim>\<open>ws2812b_info\<close>, LED 0 at (r, g, b) = (0, 0, 0) and LED 1 at (255, 0, 0), gives 48
  bytes: 24 bytes \<open>0xC0\<close> for LED 0, then 8 bytes \<open>0xC0\<close> (green of LED 1), 8 bytes
  \<open>0xFC\<close> (red), 8 bytes \<open>0xC0\<close> (blue).
\<close>

theorem end_to_end_example:
  "ws281x_update_pixelstream example_chain =
     Some (example_chain\<lparr>pixelstream :=
       replicate 24 0xC0 @ replicate 8 0xC0 @ replicate 8 0xFC @ replicate 8 0xC0\<rparr>)
   \<and> length (replicate 24 (0xC0::u8) @ replicate 8 0xC0 @ replicate 8 0xFC @ replicate 8 0xC0) = 48"
proof
  show "ws281x_update_pixelstream example_chain =
     Some (example_chain\<lparr>pixelstream :=
       replicate 24 0xC0 @ replicate 8 0xC0 @ replicate 8 0xFC @ replicate 8 0xC0\<rparr>)"
    by code_simp
  show "length (replicate 24 (0xC0::u8) @ replicate 8 0xC0 @ replicate 8 0xFC @ replicate 8 0xC0) = 48"
    by simp
qed

text \<open>
  C7. On a well-formed chain, after a rebuild, replacing the state of LED \<open>k\<close> alone and
  rebuilding again gives a frame buffer of the same length that agrees with the previous
  one before offset \<open>k * pixel_sz\<close> and from offset \<open>(k + 1) * pixel_sz\<close> on; the
  \<^verbatim>\<open>pixel_sz\<close> bytes at offset \<open>k * pixel_sz\<close> are the encoding of the new state of LED \<open>k\<close>.
\<close>

theorem rebuild_changes_one_region:
  assumes "chain_wf ws" and "k < length (leds ws)" and "3 \<le> length (subled_info (led l'))"
    and "ws281x_update_pixelstream ws = Some a"
  shows "\<exists>b. ws281x_update_pixelstream (a\<lparr>leds := (leds a)[k := l']\<rparr>) = Some b
           \<and> length (pixelstream b) = length (pixelstream a)
           \<and> take (k * unat (pixel_sz (info ws))) (pixelstream b) =
               take (k * unat (pixel_sz (info ws))) (pixelstream a)
           \<and> drop (Suc k * unat (pixel_sz (info ws))) (pixelstream b) =
               drop (Suc k * unat (pixel_sz (info ws))) (pixelstream a)
           \<and> take (unat (pixel_sz (info ws))) (drop (k * unat (pixel_sz (info ws))) (pixelstream b)) =
               pixel_symbols (info ws) l'"
proof -
  let ?ci = "info ws"
  let ?F = "frame_of ?ci (leds ws)"
  define p where "p = unat (pixel_sz ?ci)"
  have p3: "3 * unat (subpixel_sz ?ci) = p" using assms(1) by (simp add: chain_wf_def p_def)
  have a: "a = ws\<lparr>pixelstream := ?F\<rparr>"
    using assms(4) update_pixelstream_frame [OF assms(1)] by simp
  define a' where "a' = a\<lparr>leds := (leds a)[k := l']\<rparr>"
  have wf': "chain_wf a'"
    unfolding a'_def a using chain_wf_led_update [OF chain_wf_frame [OF assms(1)] assms(3)] by simp
  define G where "G = take (k * p) ?F @ pixel_symbols ?ci l' @ drop (Suc k * p) ?F"
  have G: "frame_of ?ci ((leds ws)[k := l']) = G"
    unfolding G_def p3 [symmetric] by (rule frame_of_update [OF assms(2)])
  have b: "ws281x_update_pixelstream a' = Some (a'\<lparr>pixelstream := G\<rparr>)"
    using update_pixelstream_frame [OF wf'] G by (simp add: a'_def a)
  have lF: "length ?F = length (leds ws) * p" by (simp only: length_frame_of p3)
  have e: "Suc k * p = k * p + p" by simp
  have "Suc k * p \<le> length (leds ws) * p" using assms(2) by (intro mult_le_mono1) simp
  then have fit: "k * p + p \<le> length ?F" unfolding lF e .
  have lt: "length (take (k * p) ?F) = k * p" using fit by simp
  have lp: "length (pixel_symbols ?ci l') = p" by (simp only: length_pixel_symbols p3)
  have ld: "length (drop (Suc k * p) ?F) = length ?F - (k * p + p)" by (simp only: length_drop e)
  have 1: "length G = length ?F" unfolding G_def length_append lt lp ld using fit by simp
  have 2: "take (k * p) G = take (k * p) ?F"
    unfolding G_def by (rule take_app_len [OF lt])
  have 3: "drop (Suc k * p) G = drop (Suc k * p) ?F"
    unfolding G_def e by (rule drop_app_len2 [OF lt lp])
  have d3: "drop (p + k * p) G = drop (p + k * p) ?F"
    using 3 by (simp only: e add.commute)
  have 4: "take p (drop (k * p) G) = pixel_symbols ?ci l'"
    unfolding G_def using lt lp by (simp del: length_take length_pixel_symbols)
  show ?thesis
    unfolding a'_def [symmetric] b p_def [symmetric]
    by (intro exI [of _ "a'\<lparr>pixelstream := G\<rparr>"] conjI) (simp_all add: a 1 2 d3 4)
qed

theorem rebuild_changes_one_region_witness:
  "chain_wf example_chain \<and> 1 < length (leds example_chain)
   \<and> 3 \<le> length (subled_info (led (example_led 0 0 255)))
   \<and> ws281x_update_pixelstream example_chain = Some (example_chain\<lparr>pixelstream := example_frame\<rparr>)
   \<and> ws281x_update_pixelstream
        (example_chain\<lparr>pixelstream := example_frame, leds := [example_led 0 0 0, example_led 0 0 255]\<rparr>) =
       Some (example_chain\<lparr>pixelstream := replicate 24 0xC0 @ replicate 16 0xC0 @ replicate 8 0xFC,
                           leds := [example_led 0 0 0, example_led 0 0 255]\<rparr>)
   \<and> drop (Suc 1 * unat (pixel_sz (info example_chain)))
        (replicate 24 (0xC0::u8) @ replicate 16 0xC0 @ replicate 8 0xFC) =
      drop (Suc 1 * unat (pixel_sz (info example_chain))) example_frame"
proof -
  have h1: "chain_wf example_chain" by (rule chain_wf_example)
  have h2: "1 < length (leds example_chain)" by (simp add: example_chain_def)
  have h3: "3 \<le> length (subled_info (led (example_led 0 0 255)))" by (simp add: example_led_def)
  have h4: "ws281x_update_pixelstream example_chain = Some (example_chain\<lparr>pixelstream := example_frame\<rparr>)"
    by code_simp
  have e: "ws281x_update_pixelstream
        (example_chain\<lparr>pixelstream := example_frame, leds := [example_led 0 0 0, example_led 0 0 255]\<rparr>) =
       Some (example_chain\<lparr>pixelstream := replicate 24 0xC0 @ replicate 16 0xC0 @ replicate 8 0xFC,
                           leds := [example_led 0 0 0, example_led 0 0 255]\<rparr>)"
    by code_simp
  have u: "(example_chain\<lparr>pixelstream := example_frame\<rparr>)
             \<lparr>leds := (leds (example_chain\<lparr>pixelstream := example_frame\<rparr>))[1 := example_led 0 0 255]\<rparr> =
           example_chain\<lparr>pixelstream := example_frame, leds := [example_led 0 0 0, example_led 0 0 255]\<rparr>"
    by (simp add: example_chain_def)
  from rebuild_changes_one_region [OF h1 h2 h3 h4] e
  have "drop (Suc 1 * unat (pixel_sz (info example_chain)))
        (replicate 24 (0xC0::u8) @ replicate 16 0xC0 @ replicate 8 0xFC) =
      drop (Suc 1 * unat (pixel_sz (info example_chain))) example_frame"
    unfolding u by auto
  with h1 h2 h3 h4 e show ?thesis by simp
qed

text \<open>
  C10. On a well-formed chain the rebuild returns, and every byte of the rebuilt frame
  buffer is the profile's \<^verbatim>\<open>zero_val\<close> or its \<^verbatim>\<open>one_val\<close>, whatever the brightness
  values are.
\<close>

theorem frame_bytes_are_symbols:
  assumes "chain_wf ws"
  shows "\<exists>ws'. ws281x_update_pixelstream ws = Some ws'
            \<and> set (pixelstream ws') \<subseteq> {zero_val (info ws), one_val (info ws)}"
  using update_pixelstream_frame [OF assms] set_frame_of [of "info ws" "leds ws"] by simp

theorem frame_bytes_are_symbols_witness:
  "chain_wf example_chain
   \<and> ws281x_update_pixelstream example_chain = Some (example_chain\<lparr>pixelstream := example_frame\<rparr>)
   \<and> set example_frame \<subseteq> {0xC0, 0xFC}"
proof -
  have h: "chain_wf example_chain" by (rule chain_wf_example)
  have e: "ws281x_update_pixelstream example_chain = Some (example_chain\<lparr>pixelstream := example_frame\<rparr>)"
    by code_simp
  have i: "zero_val (info example_chain) = 0xC0" "one_val (info example_chain) = 0xFC"
    by (simp_all add: example_chain_def ws2812b_info_def)
  from frame_bytes_are_symbols [OF h] e have "set example_frame \<subseteq> {0xC0, 0xFC}"
    unfolding i by auto
  with h e show ?thesis by simp
qed

section \<open>Properties of one update\<close>

lemma calc_color_components_shape:
  assumes "led_mc_calc_color_components mc b = Some mc'"
  shows "length (subled_info mc') = length (subled_info mc)"
    and "map color_index (subled_info mc') = map color_index (subled_info mc)"
    and "led_cdev mc' = led_cdev mc" and "num_colors mc' = num_colors mc"
proof -
  let ?n = "unat (num_colors mc)"
  let ?f = "\<lambda>s. s\<lparr>brightness := b * intensity s div max_brightness (led_cdev mc)\<rparr>"
  have mc': "mc' = mc\<lparr>subled_info := map ?f (take ?n (subled_info mc)) @ drop ?n (subled_info mc)\<rparr>"
    using assms by (simp add: led_mc_calc_color_components_def Let_def split: if_splits)
  show "length (subled_info mc') = length (subled_info mc)" by (simp add: mc')
  have f: "map color_index (map ?f xs) = map color_index xs" for xs
    by (induction xs) simp_all
  have "map color_index (subled_info mc') =
        map color_index (take ?n (subled_info mc)) @ map color_index (drop ?n (subled_info mc))"
    by (simp add: mc' f)
  also have "\<dots> = map color_index (take ?n (subled_info mc) @ drop ?n (subled_info mc))"
    by (simp only: map_append)
  also have "\<dots> = map color_index (subled_info mc)"
    by (simp only: append_take_drop_id)
  finally show "map color_index (subled_info mc') = map color_index (subled_info mc)" .
  show "led_cdev mc' = led_cdev mc" "num_colors mc' = num_colors mc" by (simp_all add: mc')
qed

lemma format_subpixel_loop_length:
  "ws281x_format_subpixel_loop ci buf off i pixel = Some out \<Longrightarrow> length out = length buf"
proof (induction ci buf off i pixel rule: ws281x_format_subpixel_loop.induct)
  case (1 ci buf off i pixel)
  from "1.prems" show ?case
    by (subst (asm) ws281x_format_subpixel_loop.simps) (auto split: if_splits dest: "1.IH")
qed

lemma format_pixel_grb_length:
  "ws2812_format_pixel_grb ci buf off g r b = Some out \<Longrightarrow> length out = length buf"
  by (auto simp: ws2812_format_pixel_grb_def ws281x_format_subpixel_def
      split: option.splits dest!: format_subpixel_loop_length)

lemma update_pixelstream_loop_only_frame:
  "ws281x_update_pixelstream_loop ws off i = Some ws' \<Longrightarrow>
   \<exists>buf. ws' = ws\<lparr>pixelstream := buf\<rparr> \<and> length buf = length (pixelstream ws)"
proof (induction ws off i rule: ws281x_update_pixelstream_loop.induct)
  case (1 ws off i)
  show ?case
  proof (cases "i < unat (num_leds ws)")
    case False
    with "1.prems" have "ws' = ws"
      by (subst (asm) ws281x_update_pixelstream_loop.simps) simp
    then show ?thesis by (intro exI [of _ "pixelstream ws"]) simp
  next
    case True
    from "1.prems" True obtain l s1 s0 s2 buf where
      n: "nth_opt (leds ws) i = Some l" "nth_opt (subled_info (led l)) 1 = Some s1"
         "nth_opt (subled_info (led l)) 0 = Some s0" "nth_opt (subled_info (led l)) 2 = Some s2"
      and g: "ws2812_format_pixel_grb (info ws) (pixelstream ws) off (ucast (brightness s1))
               (ucast (brightness s0)) (ucast (brightness s2)) = Some buf"
      and r: "ws281x_update_pixelstream_loop (ws\<lparr>pixelstream := buf\<rparr>)
                (off + unat (pixel_sz (info ws))) (Suc i) = Some ws'"
      by (subst (asm) ws281x_update_pixelstream_loop.simps) (auto split: option.splits)
    from "1.IH" [OF True n g r] obtain buf' where
      "ws' = ws\<lparr>pixelstream := buf\<rparr>\<lparr>pixelstream := buf'\<rparr>" "length buf' = length buf"
      by auto
    with format_pixel_grb_length [OF g] show ?thesis
      by (intro exI [of _ buf']) simp
  qed
qed

lemma update_pixelstream_only_frame:
  "ws281x_update_pixelstream ws = Some ws' \<Longrightarrow>
   \<exists>buf. ws' = ws\<lparr>pixelstream := buf\<rparr> \<and> length buf = length (pixelstream ws)"
  unfolding ws281x_update_pixelstream_def by (rule update_pixelstream_loop_only_frame)

lemma brightness_set_blocking_trace_shape:
  assumes "ws281x_brightness_set_blocking_trace spi_sync k b ws = Some (tr, ret)"
  shows "\<exists>mc buf x. k < length (leds ws) \<and> \<not> mutex ws
     \<and> led_mc_calc_color_components (led (leds ws ! k)) b = Some mc
     \<and> ws281x_update_pixelstream (ws\<lparr>leds := (leds ws)[k := (leds ws ! k)\<lparr>led := mc\<rparr>], mutex := True\<rparr>) =
         Some (ws\<lparr>leds := (leds ws)[k := (leds ws ! k)\<lparr>led := mc\<rparr>], mutex := True, pixelstream := buf\<rparr>)
     \<and> length buf = length (pixelstream ws)
     \<and> x = \<lparr>tx_buf = buf, len = ucast (pixel_sz (info ws)) * num_leds ws\<rparr>
     \<and> ret = spi_sync x
     \<and> tr = [ws,
             ws\<lparr>leds := (leds ws)[k := (leds ws ! k)\<lparr>led := mc\<rparr>]\<rparr>,
             ws\<lparr>leds := (leds ws)[k := (leds ws ! k)\<lparr>led := mc\<rparr>], mutex := True\<rparr>,
             ws\<lparr>leds := (leds ws)[k := (leds ws ! k)\<lparr>led := mc\<rparr>], mutex := True, pixelstream := buf\<rparr>,
             ws\<lparr>leds := (leds ws)[k := (leds ws ! k)\<lparr>led := mc\<rparr>], mutex := True, pixelstream := buf,
                spi := (spi ws)\<lparr>transfers := transfers (spi ws) @ [x]\<rparr>\<rparr>,
             ws\<lparr>leds := (leds ws)[k := (leds ws ! k)\<lparr>led := mc\<rparr>], mutex := False, pixelstream := buf,
                spi := (spi ws)\<lparr>transfers := transfers (spi ws) @ [x]\<rparr>\<rparr>]"
proof -
  from assms obtain l mc st2 st3 where
    l: "nth_opt (leds ws) k = Some l"
    and mc: "led_mc_calc_color_components (led l) b = Some mc"
    and lk: "mutex_lock (ws\<lparr>leds := (leds ws)[k := l\<lparr>led := mc\<rparr>]\<rparr>) = Some st2"
    and up: "ws281x_update_pixelstream st2 = Some st3"
    and res: "(case ws281x_write spi_sync st3 of (ret, st4) \<Rightarrow>
               Some ([ws, ws\<lparr>leds := (leds ws)[k := l\<lparr>led := mc\<rparr>]\<rparr>, st2, st3, st4, mutex_unlock st4], ret))
             = Some (tr, ret)"
    by (auto simp: ws281x_brightness_set_blocking_trace_def Let_def split: option.splits)
  from l have k: "k < length (leds ws)" and l': "l = leds ws ! k"
    by (auto simp: nth_opt_def split: if_splits)
  from lk have m: "\<not> mutex ws" and st2: "st2 = ws\<lparr>leds := (leds ws)[k := l\<lparr>led := mc\<rparr>], mutex := True\<rparr>"
    by (auto simp: mutex_lock_def split: if_splits)
  from update_pixelstream_only_frame [OF up] obtain buf where
    st3: "st3 = st2\<lparr>pixelstream := buf\<rparr>" and lb: "length buf = length (pixelstream st2)" by auto
  show ?thesis
    using res k m mc up lb
    apply (intro exI [of _ mc] exI [of _ buf] exI [of _ "\<lparr>tx_buf = buf, len = ucast (pixel_sz (info ws)) * num_leds ws\<rparr>"])
    apply (auto simp: st3 st2 l' ws281x_write_def Let_def mutex_unlock_def split: if_splits)
    done
qed

text \<open>
  C3, as the spec states it, fails: on the example chain, a call for LED 1 with
  brightness 128 changes the channel state of LED 1 in a step at which the mutex is not
  held.
\<close>

theorem channel_state_update_outside_lock:
  "\<not> update_under_lock spi_sync_ok 1 128 example_chain"
  by code_simp

text \<open>
  C3, amended. In every call that returns, the frame buffer is changed and the transfer
  is handed to the transport only in steps with the mutex held; the mutex is taken
  after the channel-state update, held through the rebuild and the transmission, and
  released before the return. The channel-state update (the first statement) runs with
  the mutex not held, changes neither the frame buffer nor the transport, and the
  channel state does not change afterwards.
\<close>

theorem frame_and_transport_under_lock_only:
  assumes "ws281x_brightness_set_blocking_trace spi_sync k b ws = Some (tr, ret)"
  shows "frame_and_transport_under_lock tr
     \<and> (\<exists>s0 s1 s2 s3 s4 s5. tr = [s0, s1, s2, s3, s4, s5]
          \<and> \<not> mutex s0 \<and> \<not> mutex s1
          \<and> pixelstream s1 = pixelstream s0 \<and> spi s1 = spi s0
          \<and> mutex_lock s1 = Some s2
          \<and> ws281x_update_pixelstream s2 = Some s3
          \<and> ws281x_write spi_sync s3 = (ret, s4)
          \<and> mutex_unlock s4 = s5
          \<and> mutex s2 \<and> mutex s3 \<and> mutex s4 \<and> \<not> mutex s5
          \<and> leds s2 = leds s1 \<and> leds s3 = leds s1 \<and> leds s4 = leds s1 \<and> leds s5 = leds s1)"
proof -
  from brightness_set_blocking_trace_shape [OF assms] obtain mc buf x where
    m: "\<not> mutex ws"
    and up: "ws281x_update_pixelstream (ws\<lparr>leds := (leds ws)[k := (leds ws ! k)\<lparr>led := mc\<rparr>], mutex := True\<rparr>) =
         Some (ws\<lparr>leds := (leds ws)[k := (leds ws ! k)\<lparr>led := mc\<rparr>], mutex := True, pixelstream := buf\<rparr>)"
    and x: "x = \<lparr>tx_buf = buf, len = ucast (pixel_sz (info ws)) * num_leds ws\<rparr>"
    and ret: "ret = spi_sync x"
    and tr: "tr = [ws,
             ws\<lparr>leds := (leds ws)[k := (leds ws ! k)\<lparr>led := mc\<rparr>]\<rparr>,
             ws\<lparr>leds := (leds ws)[k := (leds ws ! k)\<lparr>led := mc\<rparr>], mutex := True\<rparr>,
             ws\<lparr>leds := (leds ws)[k := (leds ws ! k)\<lparr>led := mc\<rparr>], mutex := True, pixelstream := buf\<rparr>,
             ws\<lparr>leds := (leds ws)[k := (leds ws ! k)\<lparr>led := mc\<rparr>], mutex := True, pixelstream := buf,
                spi := (spi ws)\<lparr>transfers := transfers (spi ws) @ [x]\<rparr>\<rparr>,
             ws\<lparr>leds := (leds ws)[k := (leds ws ! k)\<lparr>led := mc\<rparr>], mutex := False, pixelstream := buf,
                spi := (spi ws)\<lparr>transfers := transfers (spi ws) @ [x]\<rparr>\<rparr>]"
    by blast
  have 1: "frame_and_transport_under_lock tr"
    using m by (simp add: tr frame_and_transport_under_lock_def)
  have 2: "\<exists>s0 s1 s2 s3 s4 s5. tr = [s0, s1, s2, s3, s4, s5]
          \<and> \<not> mutex s0 \<and> \<not> mutex s1
          \<and> pixelstream s1 = pixelstream s0 \<and> spi s1 = spi s0
          \<and> mutex_lock s1 = Some s2
          \<and> ws281x_update_pixelstream s2 = Some s3
          \<and> ws281x_write spi_sync s3 = (ret, s4)
          \<and> mutex_unlock s4 = s5
          \<and> mutex s2 \<and> mutex s3 \<and> mutex s4 \<and> \<not> mutex s5
          \<and> leds s2 = leds s1 \<and> leds s3 = leds s1 \<and> leds s4 = leds s1 \<and> leds s5 = leds s1"
    unfolding tr
    apply (intro exI conjI)
                    apply (rule refl)
    using m up by (simp_all add: mutex_lock_def mutex_unlock_def ws281x_write_def Let_def x ret)
  from 1 2 show ?thesis ..
qed

theorem frame_and_transport_under_lock_only_witness:
  "\<exists>tr ret. ws281x_brightness_set_blocking_trace spi_sync_ok 1 128 example_chain = Some (tr, ret)
     \<and> frame_and_transport_under_lock tr \<and> length tr = 6"
proof -
  have "ws281x_brightness_set_blocking_trace spi_sync_ok 1 128 example_chain \<noteq> None"
    by code_simp
  then obtain tr ret where
    e: "ws281x_brightness_set_blocking_trace spi_sync_ok 1 128 example_chain = Some (tr, ret)"
    by auto
  from frame_and_transport_under_lock_only [OF e] have "frame_and_transport_under_lock tr" "length tr = 6"
    by auto
  with e show ?thesis by blast
qed

text \<open>
  C4. On a well-formed chain with the mutex free, a call for an LED of the chain returns,
  and what it returns is the status of the one transfer it handed to the transport: the
  error when the transport fails, 0 when it succeeds. Exactly one transfer is added (no
  retry). Whatever the status, the chain is left with the updated channel state, the
  frame built from it, the mutex released and its shape intact, so that the next call
  starts from the latest values.
\<close>

theorem transport_status_returned_state_kept:
  assumes "chain_wf ws" and "\<not> mutex ws" and "k < length (leds ws)"
    and "led_mc_calc_color_components (led (leds ws ! k)) b = Some mc"
  shows "\<exists>x ws'. ws281x_brightness_set_blocking spi_sync k b ws = Some (spi_sync x, ws')
           \<and> transfers (spi ws') = transfers (spi ws) @ [x]
           \<and> leds ws' = (leds ws)[k := (leds ws ! k)\<lparr>led := mc\<rparr>]
           \<and> tx_buf x = frame_of (info ws) (leds ws')
           \<and> pixelstream ws' = tx_buf x
           \<and> \<not> mutex ws' \<and> chain_wf ws'"
proof -
  let ?ci = "info ws"
  define L where "L = (leds ws)[k := (leds ws ! k)\<lparr>led := mc\<rparr>]"
  define st2 where "st2 = ws\<lparr>leds := L, mutex := True\<rparr>"
  define x where "x = \<lparr>tx_buf = frame_of ?ci L, len = ucast (pixel_sz ?ci) * num_leds ws\<rparr>"
  define ws' where "ws' = ws\<lparr>leds := L, mutex := False, pixelstream := frame_of ?ci L,
                             spi := (spi ws)\<lparr>transfers := transfers (spi ws) @ [x]\<rparr>\<rparr>"
  have "leds ws ! k \<in> set (leds ws)" using assms(3) by simp
  then have "3 \<le> length (subled_info (led (leds ws ! k)))"
    using assms(1) by (simp add: chain_wf_def list_all_iff)
  then have mc3: "3 \<le> length (subled_info (led ((leds ws ! k)\<lparr>led := mc\<rparr>)))"
    using calc_color_components_shape(1) [OF assms(4)] by simp
  have wf1: "chain_wf (ws\<lparr>leds := L\<rparr>)"
    unfolding L_def by (rule chain_wf_led_update [OF assms(1) mc3])
  then have wf2: "chain_wf st2" by (simp add: st2_def chain_wf_def)
  have up: "ws281x_update_pixelstream st2 = Some (st2\<lparr>pixelstream := frame_of ?ci L\<rparr>)"
    using update_pixelstream_frame [OF wf2] by (simp add: st2_def)
  have n: "nth_opt (leds ws) k = Some (leds ws ! k)" using assms(3) by (simp add: nth_opt_def)
  have lk: "mutex_lock (ws\<lparr>leds := L\<rparr>) = Some st2"
    using assms(2) by (simp add: mutex_lock_def st2_def)
  have tr: "ws281x_brightness_set_blocking_trace spi_sync k b ws =
      Some ([ws, ws\<lparr>leds := L\<rparr>, st2, st2\<lparr>pixelstream := frame_of ?ci L\<rparr>,
             st2\<lparr>pixelstream := frame_of ?ci L, spi := (spi ws)\<lparr>transfers := transfers (spi ws) @ [x]\<rparr>\<rparr>,
             ws'], spi_sync x)"
    unfolding ws281x_brightness_set_blocking_trace_def n option.case assms(4) Let_def L_def [symmetric] lk up
    by (simp add: ws281x_write_def Let_def mutex_unlock_def x_def ws'_def st2_def)
  have r: "ws281x_brightness_set_blocking spi_sync k b ws = Some (spi_sync x, ws')"
    unfolding ws281x_brightness_set_blocking_def tr by simp
  have wf': "chain_wf ws'" using wf1 by (simp add: ws'_def chain_wf_def)
  show ?thesis
    by (intro exI [of _ x] exI [of _ ws'] conjI r wf') (simp_all add: ws'_def x_def L_def)
qed

theorem transport_status_returned_state_kept_witness:
  "chain_wf example_chain \<and> \<not> mutex example_chain \<and> 1 < length (leds example_chain)
   \<and> led_mc_calc_color_components (led (leds example_chain ! 1)) 128 = Some example_dimmed
   \<and> (\<exists>x ws'. ws281x_brightness_set_blocking spi_sync_fail 1 128 example_chain = Some (- 5, ws')
         \<and> transfers (spi ws') = [x]
         \<and> leds ws' = [example_led 0 0 0, \<lparr>led = example_dimmed\<rparr>])"
proof -
  have h1: "chain_wf example_chain" by (rule chain_wf_example)
  have h2: "\<not> mutex example_chain" by (simp add: example_chain_def)
  have h3: "1 < length (leds example_chain)" by (simp add: example_chain_def)
  have h4: "led_mc_calc_color_components (led (leds example_chain ! 1)) 128 = Some example_dimmed"
    by code_simp
  from transport_status_returned_state_kept [OF h1 h2 h3 h4, of spi_sync_fail]
  have "\<exists>x ws'. ws281x_brightness_set_blocking spi_sync_fail 1 128 example_chain = Some (- 5, ws')
         \<and> transfers (spi ws') = [x]
         \<and> leds ws' = [example_led 0 0 0, \<lparr>led = example_dimmed\<rparr>]"
    by (auto simp: spi_sync_fail_def example_chain_def)
  with h1 h2 h3 h4 show ?thesis by blast
qed

section \<open>Properties of registration and setup\<close>

lemma set_color_index_Some:
  "set_color_index xs i c = Some ys \<Longrightarrow> i < length xs \<and> ys = xs[i := (xs ! i)\<lparr>color_index := c\<rparr>]"
  by (auto simp: set_color_index_def split: if_splits)

lemma take_3_nth:
  assumes "2 < length xs"
  shows "take 3 xs = [xs ! 0, xs ! 1, xs ! 2]"
proof -
  from assms obtain a xs1 where 1: "xs = a # xs1" by (cases xs) auto
  with assms obtain b xs2 where 2: "xs1 = b # xs2" by (cases xs1) auto
  with assms 1 obtain c xs3 where 3: "xs2 = c # xs3" by (cases xs2) auto
  show ?thesis by (simp add: 1 2 3)
qed

lemma register_leds_loop_step:
  assumes "ws281x_register_leds_loop (c # cs) num ws dr = Some (0, ws', dr')"
  shows "\<exists>l'. num < length (leds ws) \<and> registered_led (info ws) l'
           \<and> ws281x_register_leds_loop cs (Suc num) (ws\<lparr>leds := (leds ws)[num := l']\<rparr>)
                (dr @ [Devres_subled num, Devres_led_classdev num]) = Some (0, ws', dr')"
proof -
  let ?M = "map (subled_mem c) [0..<unat (ch_per_led (info ws))]"
  from assms obtain m0 m1 m2 l where
    m0: "set_color_index ?M 0 LED_COLOR_ID_RED = Some m0"
    and m1: "set_color_index m0 1 LED_COLOR_ID_GREEN = Some m1"
    and m2: "set_color_index m1 2 LED_COLOR_ID_BLUE = Some m2"
    and l: "nth_opt (leds ws) num = Some l"
    and r: "register_ret c = 0"
    and rest: "ws281x_register_leds_loop cs (Suc num)
        (ws\<lparr>leds := (leds ws)[num := l\<lparr>led := (led l)
                                       \<lparr>subled_info := m2,
                                        num_colors := ucast (ch_per_led (info ws)),
                                        led_cdev := (led_cdev (led l))
                                          \<lparr>cdev_brightness := LED_OFF,
                                           max_brightness := LED_FULL,
                                           brightness_set_blocking := True\<rparr>\<rparr>\<rparr>]\<rparr>)
        (dr @ [Devres_subled num] @ [Devres_led_classdev num]) = Some (0, ws', dr')"
    by (auto simp: Let_def split: if_splits option.splits)
  from set_color_index_Some [OF m0] set_color_index_Some [OF m1] set_color_index_Some [OF m2]
  have len: "length m2 = unat (ch_per_led (info ws))" "2 < length m2"
    and ci: "color_index (m2 ! 0) = LED_COLOR_ID_RED" "color_index (m2 ! 1) = LED_COLOR_ID_GREEN"
            "color_index (m2 ! 2) = LED_COLOR_ID_BLUE"
    by auto
  have t3: "take 3 m2 = [m2 ! 0, m2 ! 1, m2 ! 2]"
    using len(2) by (rule take_3_nth)
  have reg: "registered_led (info ws) (l\<lparr>led := (led l)
                                       \<lparr>subled_info := m2,
                                        num_colors := ucast (ch_per_led (info ws)),
                                        led_cdev := (led_cdev (led l))
                                          \<lparr>cdev_brightness := LED_OFF,
                                           max_brightness := LED_FULL,
                                           brightness_set_blocking := True\<rparr>\<rparr>\<rparr>)"
    using ci by (simp add: registered_led_def len t3)
  from l have "num < length (leds ws)" by (auto simp: nth_opt_def split: if_splits)
  with reg rest show ?thesis by (intro exI conjI) simp_all
qed

lemma register_leds_loop_success:
  assumes "ws281x_register_leds_loop cs num ws dr = Some (0, ws', dr')"
    and "num \<le> length (leds ws)"
  shows "\<exists>ls extra. ws' = ws\<lparr>leds := ls\<rparr> \<and> length ls = length (leds ws)
           \<and> num + length cs \<le> length (leds ws)
           \<and> (\<forall>j<num. ls ! j = leds ws ! j)
           \<and> (\<forall>j. num \<le> j \<longrightarrow> j < num + length cs \<longrightarrow> registered_led (info ws) (ls ! j))
           \<and> dr' = dr @ extra \<and> filter is_pixelstream extra = []"
  using assms
proof (induction cs arbitrary: num ws dr)
  case Nil
  then show ?case by (intro exI [of _ "leds ws"] exI [of _ "[]"]) simp
next
  case (Cons c cs)
  from register_leds_loop_step [OF Cons.prems(1)] obtain l' where
    num: "num < length (leds ws)" and reg: "registered_led (info ws) l'"
    and rest: "ws281x_register_leds_loop cs (Suc num) (ws\<lparr>leds := (leds ws)[num := l']\<rparr>)
                (dr @ [Devres_subled num, Devres_led_classdev num]) = Some (0, ws', dr')"
    by blast
  let ?ws1 = "ws\<lparr>leds := (leds ws)[num := l']\<rparr>"
  have "Suc num \<le> length (leds ?ws1)" using num by simp
  from Cons.IH [OF rest this] obtain ls extra where
    ws': "ws' = ?ws1\<lparr>leds := ls\<rparr>" and len: "length ls = length (leds ws)"
    and fit: "Suc num + length cs \<le> length (leds ws)"
    and low: "\<forall>j<Suc num. ls ! j = (leds ws)[num := l'] ! j"
    and mid: "\<forall>j. Suc num \<le> j \<longrightarrow> j < Suc num + length cs \<longrightarrow> registered_led (info ws) (ls ! j)"
    and dr': "dr' = (dr @ [Devres_subled num, Devres_led_classdev num]) @ extra"
    and ex: "filter is_pixelstream extra = []"
    by auto
  have at_num: "ls ! num = l'" using low num by simp
  have 1: "\<forall>j<num. ls ! j = leds ws ! j" using low by simp
  have 2: "\<forall>j. num \<le> j \<longrightarrow> j < num + length (c # cs) \<longrightarrow> registered_led (info ws) (ls ! j)"
  proof (intro allI impI)
    fix j assume "num \<le> j" "j < num + length (c # cs)"
    then consider "j = num" | "Suc num \<le> j" "j < Suc num + length cs" by fastforce
    then show "registered_led (info ws) (ls ! j)"
      using at_num reg mid by cases auto
  qed
  show ?case
    using ws' len fit 1 2 dr' ex
    by (intro exI [of _ ls] exI [of _ "[Devres_subled num, Devres_led_classdev num] @ extra"]) simp
qed

lemma unat_of_nat_le: "unat (of_nat n :: u32) \<le> n"
  by (simp add: unat_of_nat)

lemma probe_success:
  assumes "ws281x_spi_probe env spi0 = Some (Inr (ws, dr))"
  shows "info ws = ws2812b_info"
    and "unat (num_leds ws) = length (children env)" and "children env \<noteq> []"
    and "\<not> mutex ws"
    and "pixelstream ws = replicate (unat (pixel_sz (info ws)) * unat (num_leds ws)) 0"
    and "length (leds ws) = unat (num_leds ws)"
    and "list_all (registered_led (info ws)) (leds ws)"
    and "spi ws = spi0\<lparr>mode := SPI_MODE_0, bits_per_word := 8, max_speed_hz := write_freq ws2812b_info\<rparr>"
    and "filter is_pixelstream dr = [Devres_pixelstream (unat (pixel_sz (info ws)) * unat (num_leds ws))]"
proof -
  define count where "count = device_get_child_node_count env"
  define ci where "ci = ws2812b_info"
  define spi1 where "spi1 = spi0\<lparr>mode := SPI_MODE_0, bits_per_word := 8, max_speed_hz := write_freq ci\<rparr>"
  define ws0 where "ws0 = \<lparr>mutex = False, info = ci,
                            pixelstream = replicate (unat (pixel_sz ci) * unat count) 0,
                            num_leds = count,
                            leds = replicate (unat count) zeroed_led,
                            spi = spi1\<rparr>"
  define dr0 where "dr0 = [Devres_chain (unat count), Devres_mutex] @ [Devres_pixelstream (unat (pixel_sz ci) * unat count)]"
  have md: "device_get_match_data env = Some c \<Longrightarrow> c = ws2812b_info" for c
    by (auto simp: device_get_match_data_def ws281x_spi_dt_ids_def split: if_splits)
  from assms have c0: "count \<noteq> 0"
    and reg: "ws281x_register_leds env ws0 dr0 = Some (0, ws, dr)"
    unfolding ws281x_spi_probe_def Let_def count_def [symmetric]
    by (auto simp: ws0_def dr0_def spi1_def ci_def split: if_splits option.splits dest!: md)
  from reg have loop: "ws281x_register_leds_loop (children env) 0 ws0 dr0 = Some (0, ws, dr)"
    by (simp add: ws281x_register_leds_def)
  from register_leds_loop_success [OF loop] obtain ls extra where
    ws: "ws = ws0\<lparr>leds := ls\<rparr>" and len: "length ls = length (leds ws0)"
    and fit: "length (children env) \<le> length (leds ws0)"
    and mid: "\<forall>j. j < length (children env) \<longrightarrow> registered_led (info ws0) (ls ! j)"
    and dr: "dr = dr0 @ extra" and ex: "filter is_pixelstream extra = []"
    by auto
  have l0: "length (leds ws0) = unat count" by (simp add: ws0_def)
  have "unat count \<le> length (children env)"
    unfolding count_def device_get_child_node_count_def by (rule unat_of_nat_le)
  with fit l0 have n: "unat count = length (children env)" by simp
  show "info ws = ws2812b_info" by (simp add: ws ws0_def ci_def)
  show "unat (num_leds ws) = length (children env)" using n by (simp add: ws ws0_def)
  show "children env \<noteq> []" using c0 n by (auto simp: unat_eq_0)
  show "\<not> mutex ws" by (simp add: ws ws0_def)
  show "pixelstream ws = replicate (unat (pixel_sz (info ws)) * unat (num_leds ws)) 0"
    by (simp add: ws ws0_def)
  show "length (leds ws) = unat (num_leds ws)" using len by (simp add: ws ws0_def)
  show "list_all (registered_led (info ws)) (leds ws)"
    using mid len l0 n by (simp add: ws list_all_length)
  show "spi ws = spi0\<lparr>mode := SPI_MODE_0, bits_per_word := 8, max_speed_hz := write_freq ws2812b_info\<rparr>"
    by (simp add: ws ws0_def spi1_def ci_def)
  show "filter is_pixelstream dr = [Devres_pixelstream (unat (pixel_sz (info ws)) * unat (num_leds ws))]"
    using ex by (simp add: dr dr0_def ws ws0_def)
qed

lemma example_probe:
  "ws281x_spi_probe example_env example_spi = Some (Inr (example_probed, example_devres))"
  by code_simp

lemma list_all_update:
  "list_all P xs \<Longrightarrow> P y \<Longrightarrow> list_all P (xs[k := y])"
  by (auto simp: list_all_iff dest: set_update_subset_insert [THEN subsetD])

lemma registered_led_calc:
  assumes "registered_led ci l" and "led_mc_calc_color_components (led l) b = Some mc"
  shows "registered_led ci (l\<lparr>led := mc\<rparr>)"
proof -
  have "map color_index (take 3 (subled_info mc)) = take 3 (map color_index (subled_info mc))"
    by (simp only: take_map)
  also have "\<dots> = take 3 (map color_index (subled_info (led l)))"
    by (simp only: calc_color_components_shape(2) [OF assms(2)])
  also have "\<dots> = map color_index (take 3 (subled_info (led l)))"
    by (simp only: take_map)
  finally show ?thesis
    using assms(1) calc_color_components_shape(1) [OF assms(2)] by (simp add: registered_led_def)
qed

lemma brightness_set_blocking_preserves:
  assumes "ws281x_brightness_set_blocking spi_sync k b ws = Some (ret, ws')"
  shows "info ws' = info ws" and "num_leds ws' = num_leds ws"
    and "length (pixelstream ws') = length (pixelstream ws)"
    and "length (leds ws') = length (leds ws)"
    and "list_all (registered_led ci) (leds ws) \<Longrightarrow> list_all (registered_led ci) (leds ws')"
    and "\<exists>x. transfers (spi ws') = transfers (spi ws) @ [x] \<and> length (tx_buf x) = length (pixelstream ws)
            \<and> len x = ucast (pixel_sz (info ws)) * num_leds ws"
proof -
  from assms obtain tr where
    tr: "ws281x_brightness_set_blocking_trace spi_sync k b ws = Some (tr, ret)" and ws': "ws' = last tr"
    by (auto simp: ws281x_brightness_set_blocking_def)
  from brightness_set_blocking_trace_shape [OF tr] obtain mc buf x where
    k: "k < length (leds ws)"
    and mc: "led_mc_calc_color_components (led (leds ws ! k)) b = Some mc"
    and lb: "length buf = length (pixelstream ws)"
    and x: "x = \<lparr>tx_buf = buf, len = ucast (pixel_sz (info ws)) * num_leds ws\<rparr>"
    and last: "last tr = ws\<lparr>leds := (leds ws)[k := (leds ws ! k)\<lparr>led := mc\<rparr>], mutex := False, pixelstream := buf,
                spi := (spi ws)\<lparr>transfers := transfers (spi ws) @ [x]\<rparr>\<rparr>"
    by auto
  show "info ws' = info ws" "num_leds ws' = num_leds ws"
    "length (pixelstream ws') = length (pixelstream ws)" "length (leds ws') = length (leds ws)"
    by (simp_all add: ws' last lb)
  show "\<exists>x. transfers (spi ws') = transfers (spi ws) @ [x] \<and> length (tx_buf x) = length (pixelstream ws)
            \<and> len x = ucast (pixel_sz (info ws)) * num_leds ws"
    by (intro exI [of _ x]) (simp add: ws' last x lb)
  show "list_all (registered_led ci) (leds ws')" if a: "list_all (registered_led ci) (leds ws)"
  proof -
    from a k have "registered_led ci (leds ws ! k)" by (simp add: list_all_length)
    from registered_led_calc [OF this mc] a show ?thesis
      by (simp add: ws' last list_all_update)
  qed
qed

lemma brightness_set_calls_preserve:
  assumes "brightness_set_calls spi_sync calls ws = Some (rets, ws')"
  shows "info ws' = info ws \<and> num_leds ws' = num_leds ws
     \<and> length (pixelstream ws') = length (pixelstream ws)
     \<and> length (leds ws') = length (leds ws)
     \<and> (list_all (registered_led ci) (leds ws) \<longrightarrow> list_all (registered_led ci) (leds ws'))
     \<and> (\<exists>xs. transfers (spi ws') = transfers (spi ws) @ xs \<and> length xs = length calls
           \<and> list_all (\<lambda>x. length (tx_buf x) = length (pixelstream ws)
                          \<and> len x = ucast (pixel_sz (info ws)) * num_leds ws) xs)"
  using assms
proof (induction calls arbitrary: ws rets)
  case Nil
  then show ?case by simp
next
  case (Cons c calls)
  obtain k b where c: "c = (k, b)" by (cases c)
  from Cons.prems obtain ret ws1 rets1 where
    one: "ws281x_brightness_set_blocking spi_sync k b ws = Some (ret, ws1)"
    and rest: "brightness_set_calls spi_sync calls ws1 = Some (rets1, ws')"
    by (auto simp: c split: option.splits)
  note p = brightness_set_blocking_preserves [OF one]
  from p(6) obtain x where
    x: "transfers (spi ws1) = transfers (spi ws) @ [x]" "length (tx_buf x) = length (pixelstream ws)"
       "len x = ucast (pixel_sz (info ws)) * num_leds ws"
    by blast
  from Cons.IH [OF rest] obtain xs where
    i: "info ws' = info ws1" "num_leds ws' = num_leds ws1"
       "length (pixelstream ws') = length (pixelstream ws1)" "length (leds ws') = length (leds ws1)"
       "list_all (registered_led ci) (leds ws1) \<longrightarrow> list_all (registered_led ci) (leds ws')"
    and xs: "transfers (spi ws') = transfers (spi ws1) @ xs" "length xs = length calls"
       "list_all (\<lambda>x. length (tx_buf x) = length (pixelstream ws1)
                          \<and> len x = ucast (pixel_sz (info ws1)) * num_leds ws1) xs"
    by blast
  have "transfers (spi ws') = transfers (spi ws) @ (x # xs)" using x xs by simp
  moreover have "length (x # xs) = length (c # calls)" using xs by simp
  moreover have "list_all (\<lambda>x. length (tx_buf x) = length (pixelstream ws)
                          \<and> len x = ucast (pixel_sz (info ws)) * num_leds ws) (x # xs)"
    using x xs(3) p(1,2,3) by simp
  ultimately show ?case
    using i p(1,2,3,4) p(5) by (intro conjI exI [of _ "x # xs"]) auto
qed

lemma probe_chain_wf:
  assumes "ws281x_spi_probe env spi0 = Some (Inr (ws, dr))"
  shows "chain_wf ws"
proof -
  note p = probe_success [OF assms]
  have "list_all (\<lambda>l. 3 \<le> length (subled_info (led l))) (leds ws)"
    using p(7) by (auto simp: list_all_iff registered_led_def p(1) ws2812b_info_def)
  then show ?thesis
    using p(5,6) by (simp add: chain_wf_def p(1) ws2812b_info_def BITS_PER_BYTE_def)
qed

lemma unat_transfer_len:
  "unat (ucast (p :: u8) * (n :: u32)) = (unat n * unat p) mod 2 ^ 32"
proof -
  have "unat p < 2 ^ 8" using unsigned_less [of p, where ?'a = nat] by simp
  then have "unat p < 2 ^ 32" by simp
  then have "take_bit 32 (unat p) = unat p" by (simp only: take_bit_nat_eq_self)
  then have "unat (ucast p :: u32) = unat p"
    by (simp add: unsigned_ucast_eq)
  then show ?thesis by (simp add: unat_word_ariths mult.commute)
qed

text \<open>
  C6. For a chain that a successful probe has set up, after any sequence of brightness
  updates: the number of LEDs is the number of child nodes, at least 1; the frame buffer
  was allocated once, with \<open>num_leds * pixel_sz\<close> bytes; it has this length after the
  probe, after the updates, and in every state of a further update; and each update has
  handed the transport one transfer, whose buffer has this length and whose length field
  is \<open>num_leds * pixel_sz\<close> as an \<^verbatim>\<open>unsigned int\<close>, which is the number itself when the
  frame is shorter than \<open>2^32\<close> bytes.
\<close>

theorem frame_buffer_length_invariant:
  assumes "ws281x_spi_probe env spi0 = Some (Inr (ws0, dr))"
    and "brightness_set_calls spi_sync calls ws0 = Some (rets, ws)"
  shows "1 \<le> unat (num_leds ws) \<and> unat (num_leds ws) = length (children env)
     \<and> filter is_pixelstream dr = [Devres_pixelstream (unat (num_leds ws) * unat (pixel_sz (info ws)))]
     \<and> length (pixelstream ws0) = unat (num_leds ws) * unat (pixel_sz (info ws))
     \<and> length (pixelstream ws) = unat (num_leds ws) * unat (pixel_sz (info ws))
     \<and> (\<exists>xs. transfers (spi ws) = transfers spi0 @ xs \<and> length xs = length calls
           \<and> list_all (\<lambda>x. length (tx_buf x) = unat (num_leds ws) * unat (pixel_sz (info ws))
                          \<and> unat (len x) = (unat (num_leds ws) * unat (pixel_sz (info ws))) mod 2 ^ 32) xs
           \<and> (unat (num_leds ws) * unat (pixel_sz (info ws)) < 2 ^ 32 \<longrightarrow>
                list_all (\<lambda>x. unat (len x) = unat (num_leds ws) * unat (pixel_sz (info ws))) xs))
     \<and> (\<forall>k b tr ret. ws281x_brightness_set_blocking_trace spi_sync k b ws = Some (tr, ret) \<longrightarrow>
           list_all (\<lambda>s. length (pixelstream s) = unat (num_leds ws) * unat (pixel_sz (info ws))) tr)"
proof -
  define N where "N = unat (num_leds ws) * unat (pixel_sz (info ws))"
  note p = probe_success [OF assms(1)]
  from brightness_set_calls_preserve [OF assms(2)] obtain xs where
    i: "info ws = info ws0" "num_leds ws = num_leds ws0"
       "length (pixelstream ws) = length (pixelstream ws0)"
    and xs: "transfers (spi ws) = transfers (spi ws0) @ xs" "length xs = length calls"
       "list_all (\<lambda>x. length (tx_buf x) = length (pixelstream ws0)
                          \<and> len x = ucast (pixel_sz (info ws0)) * num_leds ws0) xs"
    by blast
  have l0: "length (pixelstream ws0) = N"
    by (subst p(5)) (simp add: N_def i mult.commute)
  have 1: "1 \<le> unat (num_leds ws)" "unat (num_leds ws) = length (children env)"
    using p(2,3) by (simp_all add: i Suc_le_eq)
  have 2: "filter is_pixelstream dr = [Devres_pixelstream N]"
    using p(9) by (simp add: N_def i mult.commute)
  have 3: "length (pixelstream ws) = N" using l0 i by simp
  have t0: "transfers (spi ws0) = transfers spi0" by (simp add: p(8))
  have 4: "list_all (\<lambda>x. length (tx_buf x) = N \<and> unat (len x) = N mod 2 ^ 32) xs"
    using xs(3) by (auto simp: list_all_iff l0 unat_transfer_len N_def i)
  then have 5: "list_all (\<lambda>x. unat (len x) = N) xs" if "N < 2 ^ 32"
    using that by (auto simp: list_all_iff)
  have 6: "list_all (\<lambda>s. length (pixelstream s) = N) tr"
    if "ws281x_brightness_set_blocking_trace spi_sync k b ws = Some (tr, ret)" for k b tr ret
  proof -
    from brightness_set_blocking_trace_shape [OF that] obtain mc buf x where
      lb: "length buf = length (pixelstream ws)"
      and tr: "tr = [ws,
             ws\<lparr>leds := (leds ws)[k := (leds ws ! k)\<lparr>led := mc\<rparr>]\<rparr>,
             ws\<lparr>leds := (leds ws)[k := (leds ws ! k)\<lparr>led := mc\<rparr>], mutex := True\<rparr>,
             ws\<lparr>leds := (leds ws)[k := (leds ws ! k)\<lparr>led := mc\<rparr>], mutex := True, pixelstream := buf\<rparr>,
             ws\<lparr>leds := (leds ws)[k := (leds ws ! k)\<lparr>led := mc\<rparr>], mutex := True, pixelstream := buf,
                spi := (spi ws)\<lparr>transfers := transfers (spi ws) @ [x]\<rparr>\<rparr>,
             ws\<lparr>leds := (leds ws)[k := (leds ws ! k)\<lparr>led := mc\<rparr>], mutex := False, pixelstream := buf,
                spi := (spi ws)\<lparr>transfers := transfers (spi ws) @ [x]\<rparr>\<rparr>]"
      by blast
    show ?thesis by (simp add: tr lb 3)
  qed
  have ex: "\<exists>xs. transfers (spi ws) = transfers spi0 @ xs \<and> length xs = length calls
           \<and> list_all (\<lambda>x. length (tx_buf x) = N \<and> unat (len x) = N mod 2 ^ 32) xs
           \<and> (N < 2 ^ 32 \<longrightarrow> list_all (\<lambda>x. unat (len x) = N) xs)"
    using xs(1,2) t0 4 5 by (intro exI [of _ xs]) simp
  show ?thesis
    unfolding N_def [symmetric] using 1 2 l0 3 ex 6 by blast
qed

theorem frame_buffer_length_invariant_witness:
  "ws281x_spi_probe example_env example_spi = Some (Inr (example_probed, example_devres))
   \<and> (\<exists>rets ws. brightness_set_calls spi_sync_ok [(1, 255), (0, 7)] example_probed = Some (rets, ws)
         \<and> length (pixelstream ws) = 48
         \<and> filter is_pixelstream example_devres = [Devres_pixelstream 48]
         \<and> (\<exists>x y. transfers (spi ws) = [x, y] \<and> length (tx_buf x) = 48 \<and> unat (len x) = 48
                   \<and> length (tx_buf y) = 48 \<and> unat (len y) = 48))"
proof -
  have h1: "ws281x_spi_probe example_env example_spi = Some (Inr (example_probed, example_devres))"
    by (rule example_probe)
  have "brightness_set_calls spi_sync_ok [(1, 255), (0, 7)] example_probed \<noteq> None"
    by code_simp
  then obtain rets ws where
    h2: "brightness_set_calls spi_sync_ok [(1, 255), (0, 7)] example_probed = Some (rets, ws)"
    by auto
  have i: "info ws = ws2812b_info" "num_leds ws = 2"
    using brightness_set_calls_preserve [OF h2] by (simp_all add: example_probed_def)
  have n: "unat (num_leds ws) * unat (pixel_sz (info ws)) = 48"
    by (simp add: i ws2812b_info_def BITS_PER_BYTE_def)
  from frame_buffer_length_invariant [OF h1 h2] obtain xs where
    a: "length (pixelstream ws) = 48" "filter is_pixelstream example_devres = [Devres_pixelstream 48]"
    and xs: "transfers (spi ws) = transfers example_spi @ xs" "length xs = 2"
      "list_all (\<lambda>x. length (tx_buf x) = 48 \<and> unat (len x) = 48 mod 2 ^ 32) xs"
    unfolding n by auto
  from xs(2) obtain x y where xy: "xs = [x, y]"
    by (cases xs; simp) (rename_tac a as, case_tac as, auto)
  have "\<exists>x y. transfers (spi ws) = [x, y] \<and> length (tx_buf x) = 48 \<and> unat (len x) = 48
                   \<and> length (tx_buf y) = 48 \<and> unat (len y) = 48"
    using xs(1,3) by (intro exI [of _ x] exI [of _ y]) (simp add: xy example_spi_def)
  with h1 h2 a show ?thesis by blast
qed

text \<open>
  C8. With no child node, the probe returns \<^verbatim>\<open>-EINVAL\<close> (\<open>-22\<close>), and the device holds
  nothing: no chain was allocated and no LED was registered.
\<close>

theorem probe_without_children_fails:
  assumes "children env = []"
  shows "ws281x_spi_probe env spi0 = Some (Inl (- EINVAL, [])) \<and> - EINVAL = - 22"
  using assms by (simp add: ws281x_spi_probe_def device_get_child_node_count_def EINVAL_def)

theorem probe_without_children_fails_witness:
  "children (example_env\<lparr>children := []\<rparr>) = []
   \<and> ws281x_spi_probe (example_env\<lparr>children := []\<rparr>) example_spi = Some (Inl (- 22, []))"
  using probe_without_children_fails [of "example_env\<lparr>children := []\<rparr>" example_spi]
  by (simp add: EINVAL_def)

text \<open>
  C9. For a chain that a successful probe has set up, after any sequence of brightness
  updates: the sub-LEDs of every LED carry the colours red, green, blue at the indices
  0, 1, 2; and the rebuild returns a frame that holds, for each LED in chain order, the
  symbols of the brightness at index 1 (green), then of the brightness at index 0 (red),
  then of the brightness at index 2 (blue).
\<close>

theorem slots_rgb_transmitted_grb:
  assumes "ws281x_spi_probe env spi0 = Some (Inr (ws0, dr))"
    and "brightness_set_calls spi_sync calls ws0 = Some (rets, ws)"
  shows "list_all (\<lambda>l. map color_index (subled_info (led l)) =
                     [LED_COLOR_ID_RED, LED_COLOR_ID_GREEN, LED_COLOR_ID_BLUE]) (leds ws)
     \<and> (\<exists>ws'. ws281x_update_pixelstream ws = Some ws'
           \<and> pixelstream ws' =
               concat (map (\<lambda>l.
                   subpixel_symbols (info ws) (unat (subpixel_sz (info ws)))
                     (ucast (brightness (subled_info (led l) ! 1)))
                 @ subpixel_symbols (info ws) (unat (subpixel_sz (info ws)))
                     (ucast (brightness (subled_info (led l) ! 0)))
                 @ subpixel_symbols (info ws) (unat (subpixel_sz (info ws)))
                     (ucast (brightness (subled_info (led l) ! 2)))) (leds ws)))"
proof -
  note p = probe_success [OF assms(1)]
  from brightness_set_calls_preserve [OF assms(2), of ws2812b_info] p(7)
  have i: "info ws = ws2812b_info" "num_leds ws = num_leds ws0"
    "length (pixelstream ws) = length (pixelstream ws0)" "length (leds ws) = length (leds ws0)"
    and reg: "list_all (registered_led ws2812b_info) (leds ws)"
    by (simp_all add: p(1))
  have 1: "list_all (\<lambda>l. map color_index (subled_info (led l)) =
                     [LED_COLOR_ID_RED, LED_COLOR_ID_GREEN, LED_COLOR_ID_BLUE]) (leds ws)"
    using reg by (auto simp: list_all_iff registered_led_def ws2812b_info_def)
  have "chain_wf ws0" by (rule probe_chain_wf [OF assms(1)])
  then have wf: "chain_wf ws"
    using reg i by (auto simp: chain_wf_def p(1) list_all_iff registered_led_def ws2812b_info_def)
  have 2: "ws281x_update_pixelstream ws = Some (ws\<lparr>pixelstream := frame_of (info ws) (leds ws)\<rparr>)"
    by (rule update_pixelstream_frame [OF wf])
  show ?thesis
    using 1 2 by (intro conjI exI [of _ "ws\<lparr>pixelstream := frame_of (info ws) (leds ws)\<rparr>"])
      (simp_all add: frame_of_def pixel_symbols_def [abs_def] del: One_nat_def)
qed

theorem slots_rgb_transmitted_grb_witness:
  "ws281x_spi_probe example_env example_spi = Some (Inr (example_probed, example_devres))
   \<and> (\<exists>rets ws. brightness_set_calls spi_sync_ok [(1, 255)] example_probed = Some (rets, ws)
         \<and> list_all (\<lambda>l. map color_index (subled_info (led l)) =
                     [LED_COLOR_ID_RED, LED_COLOR_ID_GREEN, LED_COLOR_ID_BLUE]) (leds ws))"
proof -
  have h1: "ws281x_spi_probe example_env example_spi = Some (Inr (example_probed, example_devres))"
    by (rule example_probe)
  have "brightness_set_calls spi_sync_ok [(1, 255)] example_probed \<noteq> None"
    by code_simp
  then obtain rets ws where
    h2: "brightness_set_calls spi_sync_ok [(1, 255)] example_probed = Some (rets, ws)"
    by auto
  from slots_rgb_transmitted_grb [OF h1 h2] h1 h2 show ?thesis by blast
qed

end
